theory Spec2Isabelle
  imports Main "HOL-Library.Word"
begin

section \<open>The instruction store\<close>

text \<open>
  The decoration manager of \<^verbatim>\<open>decoration_manager.cpp\<close> keeps raw pointers to
  instructions that the module owns. A pointer is modelled by a handle (an index into
  the store), an instruction by its opcode, its result id and its in-operands.
  Decoration instructions have neither a type id nor a result id, so for them
  \<^verbatim>\<open>GetOperand(i)\<close> and \<^verbatim>\<open>GetInOperand(i)\<close> are the same operand.
  Ids and operand words are 32-bit words. Operand indices are natural numbers: an
  instruction has fewer than \<open>2 ^ 16\<close> words, so the 32-bit counters of the source
  never wrap.
\<close>

type_synonym spv_id = "32 word"
type_synonym inst_ptr = nat

datatype SpvOp =
    SpvOpDecorate
  | SpvOpMemberDecorate
  | SpvOpDecorationGroup
  | SpvOpGroupDecorate
  | SpvOpGroupMemberDecorate
  | SpvOpDecorateId
  | SpvOpDecorateStringGOOGLE
  | SpvOpOther

datatype spv_operand_type_t =
    SPV_OPERAND_TYPE_ID
  | SPV_OPERAND_TYPE_LITERAL_INTEGER
  | SPV_OPERAND_TYPE_LITERAL_STRING
  | SPV_OPERAND_TYPE_DECORATION
  | SPV_OPERAND_TYPE_OTHER

datatype Operand = Operand (optype: spv_operand_type_t) (words: "32 word list")

record Instruction =
  opcode :: SpvOp
  result_id :: spv_id
  in_operands :: "Operand list"

text \<open>
  Modelled from the spec: the enumerator \<^verbatim>\<open>SpvDecorationLinkageAttributes\<close> is
  declared in the SPIR-V header, which is not part of the source shown; it is the
  "linkage attributes" decoration kind, number 41 in SPIR-V. No theorem below depends
  on the number.
\<close>

definition SpvDecorationLinkageAttributes :: "32 word" where
  "SpvDecorationLinkageAttributes = 41"

datatype error = AssertionFailure | InvalidAccess

datatype event =
    ForgetUsesEv inst_ptr
  | AnalyzeUsesEv inst_ptr
  | OperandEditEv inst_ptr
  | KillInstEv inst_ptr

record TargetData =
  direct_decorations :: "inst_ptr list"
  indirect_decorations :: "inst_ptr list"
  decorate_insts :: "inst_ptr list"

text \<open>
  The state the manager works on: the instruction store (\<open>None\<close> is a deleted
  instruction), the module's annotation section in order, whether \<^verbatim>\<open>module_\<close>
  is not null, the index \<^verbatim>\<open>id_to_decoration_insts_\<close>, and the sequence of
  notifications and operand edits performed so far.
\<close>

record ir_state =
  insts :: "Instruction option list"
  annotations :: "inst_ptr list"
  has_module :: bool
  id_to_decoration_insts :: "spv_id \<Rightarrow> TargetData option"
  uses_log :: "event list"

definition empty_TargetData :: TargetData where
  "empty_TargetData =
     \<lparr>direct_decorations = [], indirect_decorations = [], decorate_insts = []\<rparr>"

definition bind_e :: "error + 'a \<Rightarrow> ('a \<Rightarrow> error + 'b) \<Rightarrow> error + 'b" where
  "bind_e r f = (case r of Inl e \<Rightarrow> Inl e | Inr x \<Rightarrow> f x)"

text \<open>A range-for loop whose body may abort: the first error ends the loop.\<close>

fun fold_e :: "('a \<Rightarrow> 's \<Rightarrow> error + 's) \<Rightarrow> 'a list \<Rightarrow> 's \<Rightarrow> error + 's" where
  "fold_e f [] s = Inr s"
| "fold_e f (x # xs) s = bind_e (f x s) (fold_e f xs)"

text \<open>
  The indices visited by \<^verbatim>\<open>for (i = start; i < n; i += stride)\<close>. The stride is 1
  or 2 in every loop of the source; the test \<open>0 < stride\<close> makes the function total.
\<close>

function loop_indices :: "nat \<Rightarrow> nat \<Rightarrow> nat \<Rightarrow> nat list" where
  "loop_indices i stride n =
     (if i < n \<and> 0 < stride then i # loop_indices (i + stride) stride n else [])"
  by pat_completeness auto
termination
  by (relation "measure (\<lambda>(i, stride, n). n - i)") auto

declare loop_indices.simps [simp del]

text \<open>
  Modelled from the spec: the class \<^verbatim>\<open>ir::Instruction\<close> (instruction.h) is not part
  of the source shown. The accessors below are the spec's "opcode, operand count,
  operand-at-index" queries and "set operand, append operand, remove operand at index,
  clone" mutations. Following a pointer to a deleted instruction, or reading an
  operand that is not there, is the error \<open>InvalidAccess\<close>.
\<close>

definition deref :: "ir_state \<Rightarrow> inst_ptr \<Rightarrow> error + Instruction" where
  "deref s h =
     (if h < length (insts s)
      then (case insts s ! h of None \<Rightarrow> Inl InvalidAccess | Some inst \<Rightarrow> Inr inst)
      else Inl InvalidAccess)"

definition NumInOperands :: "Instruction \<Rightarrow> nat" where
  "NumInOperands inst = length (in_operands inst)"

definition GetInOperand :: "Instruction \<Rightarrow> nat \<Rightarrow> error + Operand" where
  "GetInOperand inst i =
     (if i < NumInOperands inst then Inr (in_operands inst ! i) else Inl InvalidAccess)"

definition GetSingleWordInOperand :: "Instruction \<Rightarrow> nat \<Rightarrow> error + 32 word" where
  "GetSingleWordInOperand inst i =
     bind_e (GetInOperand inst i)
       (\<lambda>operand. case words operand of [w] \<Rightarrow> Inr w | _ \<Rightarrow> Inl InvalidAccess)"

definition SetInOperand :: "nat \<Rightarrow> 32 word list \<Rightarrow> Instruction \<Rightarrow> error + Instruction" where
  "SetInOperand i data inst =
     (if i < NumInOperands inst
      then Inr (inst\<lparr>in_operands :=
                  (in_operands inst)[i := Operand (optype (in_operands inst ! i)) data]\<rparr>)
      else Inl InvalidAccess)"

definition RemoveInOperand :: "nat \<Rightarrow> Operand list \<Rightarrow> Operand list" where
  "RemoveInOperand i ops = take i ops @ drop (Suc i) ops"

definition AddOperand :: "Operand \<Rightarrow> Instruction \<Rightarrow> Instruction" where
  "AddOperand operand inst = inst\<lparr>in_operands := in_operands inst @ [operand]\<rparr>"

definition store_inst :: "inst_ptr \<Rightarrow> Instruction \<Rightarrow> ir_state \<Rightarrow> ir_state" where
  "store_inst h inst s = s\<lparr>insts := (insts s)[h := Some inst]\<rparr>"

definition log_event :: "event \<Rightarrow> ir_state \<Rightarrow> ir_state" where
  "log_event ev s = s\<lparr>uses_log := uses_log s @ [ev]\<rparr>"

text \<open>
  \<^verbatim>\<open>module_->AddAnnotationInst(std::move(new_inst)); --module_->annotation_end()\<close>:
  the new instruction gets a fresh handle and goes to the end of the annotation section.
\<close>

definition AddAnnotationInst :: "Instruction \<Rightarrow> ir_state \<Rightarrow> inst_ptr \<times> ir_state" where
  "AddAnnotationInst inst s =
     (length (insts s),
      s\<lparr>insts := insts s @ [Some inst], annotations := annotations s @ [length (insts s)]\<rparr>)"

section \<open>The index: AddDecoration, AnalyzeDecorations, RemoveDecoration\<close>

text \<open>\<^verbatim>\<open>id_to_decoration_insts_[id]\<close>: the record of \<open>id\<close>, created empty if absent.\<close>

definition target_data :: "ir_state \<Rightarrow> spv_id \<Rightarrow> TargetData" where
  "target_data s i =
     (case id_to_decoration_insts s i of None \<Rightarrow> empty_TargetData | Some td \<Rightarrow> td)"

definition set_target_data :: "spv_id \<Rightarrow> TargetData \<Rightarrow> ir_state \<Rightarrow> ir_state" where
  "set_target_data i td s =
     s\<lparr>id_to_decoration_insts := (id_to_decoration_insts s)(i \<mapsto> td)\<rparr>"

definition push_direct :: "spv_id \<Rightarrow> inst_ptr \<Rightarrow> ir_state \<Rightarrow> ir_state" where
  "push_direct i h s =
     set_target_data i
       ((target_data s i)\<lparr>direct_decorations := direct_decorations (target_data s i) @ [h]\<rparr>) s"

definition push_indirect :: "spv_id \<Rightarrow> inst_ptr \<Rightarrow> ir_state \<Rightarrow> ir_state" where
  "push_indirect i h s =
     set_target_data i
       ((target_data s i)\<lparr>indirect_decorations :=
           indirect_decorations (target_data s i) @ [h]\<rparr>) s"

definition push_decorate_inst :: "spv_id \<Rightarrow> inst_ptr \<Rightarrow> ir_state \<Rightarrow> ir_state" where
  "push_decorate_inst i h s =
     set_target_data i
       ((target_data s i)\<lparr>decorate_insts := decorate_insts (target_data s i) @ [h]\<rparr>) s"

definition AddDecoration :: "inst_ptr \<Rightarrow> ir_state \<Rightarrow> error + ir_state" where
  "AddDecoration h s =
     bind_e (deref s h) (\<lambda>inst.
       case opcode inst of
         SpvOpDecorate \<Rightarrow>
           bind_e (GetSingleWordInOperand inst 0) (\<lambda>target_id. Inr (push_direct target_id h s))
       | SpvOpDecorateId \<Rightarrow>
           bind_e (GetSingleWordInOperand inst 0) (\<lambda>target_id. Inr (push_direct target_id h s))
       | SpvOpDecorateStringGOOGLE \<Rightarrow>
           bind_e (GetSingleWordInOperand inst 0) (\<lambda>target_id. Inr (push_direct target_id h s))
       | SpvOpMemberDecorate \<Rightarrow>
           bind_e (GetSingleWordInOperand inst 0) (\<lambda>target_id. Inr (push_direct target_id h s))
       | SpvOpGroupDecorate \<Rightarrow>
           bind_e (fold_e (\<lambda>i s'. bind_e (GetSingleWordInOperand inst i)
                                  (\<lambda>target_id. Inr (push_indirect target_id h s')))
                     (loop_indices 1 1 (NumInOperands inst)) s)
             (\<lambda>s'. bind_e (GetSingleWordInOperand inst 0)
                (\<lambda>target_id. Inr (push_decorate_inst target_id h s')))
       | SpvOpGroupMemberDecorate \<Rightarrow>
           bind_e (fold_e (\<lambda>i s'. bind_e (GetSingleWordInOperand inst i)
                                  (\<lambda>target_id. Inr (push_indirect target_id h s')))
                     (loop_indices 2 2 (NumInOperands inst)) s)
             (\<lambda>s'. bind_e (GetSingleWordInOperand inst 0)
                (\<lambda>target_id. Inr (push_decorate_inst target_id h s')))
       | _ \<Rightarrow> Inr s)"

definition AnalyzeDecorations :: "ir_state \<Rightarrow> error + ir_state" where
  "AnalyzeDecorations s =
     (if \<not> has_module s then Inr s else fold_e AddDecoration (annotations s) s)"

text \<open>\<^verbatim>\<open>v.erase(std::remove(v.begin(), v.end(), inst), v.end())\<close>\<close>

definition remove_from_container :: "inst_ptr \<Rightarrow> inst_ptr list \<Rightarrow> inst_ptr list" where
  "remove_from_container h v = filter (\<lambda>x. x \<noteq> h) v"

definition remove_direct :: "inst_ptr \<Rightarrow> spv_id \<Rightarrow> ir_state \<Rightarrow> ir_state" where
  "remove_direct h i s =
     (case id_to_decoration_insts s i of
        None \<Rightarrow> s
      | Some td \<Rightarrow>
          set_target_data i
            (td\<lparr>direct_decorations := remove_from_container h (direct_decorations td)\<rparr>) s)"

definition remove_indirect :: "inst_ptr \<Rightarrow> spv_id \<Rightarrow> ir_state \<Rightarrow> ir_state" where
  "remove_indirect h i s =
     (case id_to_decoration_insts s i of
        None \<Rightarrow> s
      | Some td \<Rightarrow>
          set_target_data i
            (td\<lparr>indirect_decorations := remove_from_container h (indirect_decorations td)\<rparr>) s)"

definition remove_decorate_inst :: "inst_ptr \<Rightarrow> spv_id \<Rightarrow> ir_state \<Rightarrow> ir_state" where
  "remove_decorate_inst h i s =
     (case id_to_decoration_insts s i of
        None \<Rightarrow> s
      | Some td \<Rightarrow>
          set_target_data i
            (td\<lparr>decorate_insts := remove_from_container h (decorate_insts td)\<rparr>) s)"

definition RemoveDecoration_group ::
  "inst_ptr \<Rightarrow> Instruction \<Rightarrow> nat \<Rightarrow> ir_state \<Rightarrow> error + ir_state" where
  "RemoveDecoration_group h inst stride s =
     bind_e (fold_e (\<lambda>i s'. bind_e (GetSingleWordInOperand inst i)
                            (\<lambda>target_id. Inr (remove_indirect h target_id s')))
               (loop_indices 1 stride (NumInOperands inst)) s)
       (\<lambda>s'. bind_e (GetSingleWordInOperand inst 0)
          (\<lambda>group_id. Inr (remove_decorate_inst h group_id s')))"

definition RemoveDecoration :: "inst_ptr \<Rightarrow> ir_state \<Rightarrow> error + ir_state" where
  "RemoveDecoration h s =
     bind_e (deref s h) (\<lambda>inst.
       case opcode inst of
         SpvOpDecorate \<Rightarrow>
           bind_e (GetSingleWordInOperand inst 0) (\<lambda>target_id. Inr (remove_direct h target_id s))
       | SpvOpDecorateId \<Rightarrow>
           bind_e (GetSingleWordInOperand inst 0) (\<lambda>target_id. Inr (remove_direct h target_id s))
       | SpvOpDecorateStringGOOGLE \<Rightarrow>
           bind_e (GetSingleWordInOperand inst 0) (\<lambda>target_id. Inr (remove_direct h target_id s))
       | SpvOpMemberDecorate \<Rightarrow>
           bind_e (GetSingleWordInOperand inst 0) (\<lambda>target_id. Inr (remove_direct h target_id s))
       | SpvOpGroupDecorate \<Rightarrow> RemoveDecoration_group h inst 1 s
       | SpvOpGroupMemberDecorate \<Rightarrow> RemoveDecoration_group h inst 2 s
       | _ \<Rightarrow> Inr s)"

section \<open>Lookup: GetDecorationsFor\<close>

definition process_direct_decorations ::
  "ir_state \<Rightarrow> bool \<Rightarrow> inst_ptr list \<Rightarrow> inst_ptr list \<Rightarrow> error + inst_ptr list" where
  "process_direct_decorations s include_linkage direct decorations =
     fold_e (\<lambda>h decs.
         bind_e (deref s h) (\<lambda>inst.
           bind_e (if opcode inst = SpvOpDecorate
                   then bind_e (GetSingleWordInOperand inst 1)
                          (\<lambda>w. Inr (w = SpvDecorationLinkageAttributes))
                   else Inr False)
             (\<lambda>is_linkage.
                Inr (if include_linkage \<or> \<not> is_linkage then decs @ [h] else decs))))
       direct decorations"

definition GetDecorationsFor :: "ir_state \<Rightarrow> spv_id \<Rightarrow> bool \<Rightarrow> error + inst_ptr list" where
  "GetDecorationsFor s i include_linkage =
     (case id_to_decoration_insts s i of
        None \<Rightarrow> Inr []
      | Some td \<Rightarrow>
          bind_e (process_direct_decorations s include_linkage
                    (direct_decorations td) [])
            (fold_e (\<lambda>h decs.
                 bind_e (deref s h) (\<lambda>inst.
                   bind_e (GetSingleWordInOperand inst 0) (\<lambda>group_id.
                     case id_to_decoration_insts s group_id of
                       None \<Rightarrow> Inl AssertionFailure
                     | Some group_data \<Rightarrow>
                         process_direct_decorations s include_linkage
                           (direct_decorations group_data) decs)))
               (indirect_decorations td)))"

section \<open>Equivalence: HaveTheSameDecorations, AreDecorationsTheSame\<close>

record DecorationSets =
  decorate_set :: "32 word list set"
  decorate_id_set :: "32 word list set"
  decorate_string_set :: "32 word list set"
  member_decorate_set :: "32 word list set"

definition empty_DecorationSets :: DecorationSets where
  "empty_DecorationSets =
     \<lparr>decorate_set = {}, decorate_id_set = {}, decorate_string_set = {},
      member_decorate_set = {}\<rparr>"

definition decoration_payload :: "Instruction \<Rightarrow> 32 word list" where
  "decoration_payload inst =
     concat (map (\<lambda>i. words (in_operands inst ! i)) [1..<NumInOperands inst])"

definition fillDecorationSets ::
  "ir_state \<Rightarrow> inst_ptr list \<Rightarrow> DecorationSets \<Rightarrow> error + DecorationSets" where
  "fillDecorationSets s decoration_list sets =
     fold_e (\<lambda>h ds.
         bind_e (deref s h) (\<lambda>inst.
           Inr (case opcode inst of
                  SpvOpDecorate \<Rightarrow>
                    ds\<lparr>decorate_set := insert (decoration_payload inst) (decorate_set ds)\<rparr>
                | SpvOpMemberDecorate \<Rightarrow>
                    ds\<lparr>member_decorate_set :=
                         insert (decoration_payload inst) (member_decorate_set ds)\<rparr>
                | SpvOpDecorateId \<Rightarrow>
                    ds\<lparr>decorate_id_set :=
                         insert (decoration_payload inst) (decorate_id_set ds)\<rparr>
                | SpvOpDecorateStringGOOGLE \<Rightarrow>
                    ds\<lparr>decorate_string_set :=
                         insert (decoration_payload inst) (decorate_string_set ds)\<rparr>
                | _ \<Rightarrow> ds)))
       decoration_list sets"

definition HaveTheSameDecorations :: "ir_state \<Rightarrow> spv_id \<Rightarrow> spv_id \<Rightarrow> error + bool" where
  "HaveTheSameDecorations s id1 id2 =
     bind_e (GetDecorationsFor s id1 False) (\<lambda>decorations_for1.
     bind_e (GetDecorationsFor s id2 False) (\<lambda>decorations_for2.
     bind_e (fillDecorationSets s decorations_for1 empty_DecorationSets) (\<lambda>for1.
     bind_e (fillDecorationSets s decorations_for2 empty_DecorationSets) (\<lambda>for2.
       Inr (decorate_set for1 = decorate_set for2 \<and>
            decorate_id_set for1 = decorate_id_set for2 \<and>
            member_decorate_set for1 = member_decorate_set for2 \<and>
            decorate_string_set for1 = decorate_string_set for2)))))"

text \<open>
  The part of \<^verbatim>\<open>AreDecorationsTheSame\<close> after the switch: same opcode, same
  number of operands, and equal operands from the first compared index on.
\<close>

definition same_opcode_and_operands :: "Instruction \<Rightarrow> Instruction \<Rightarrow> bool \<Rightarrow> bool" where
  "same_opcode_and_operands inst1 inst2 ignore_target =
     (if opcode inst1 \<noteq> opcode inst2 \<or> NumInOperands inst1 \<noteq> NumInOperands inst2
      then False
      else list_all (\<lambda>i. in_operands inst1 ! i = in_operands inst2 ! i)
             [(if ignore_target then 1 else 0)..<NumInOperands inst1])"

definition AreDecorationsTheSame :: "Instruction \<Rightarrow> Instruction \<Rightarrow> bool \<Rightarrow> bool" where
  "AreDecorationsTheSame inst1 inst2 ignore_target =
     (case opcode inst1 of
        SpvOpDecorate \<Rightarrow> same_opcode_and_operands inst1 inst2 ignore_target
      | SpvOpMemberDecorate \<Rightarrow> same_opcode_and_operands inst1 inst2 ignore_target
      | SpvOpDecorateId \<Rightarrow> same_opcode_and_operands inst1 inst2 ignore_target
      | SpvOpDecorateStringGOOGLE \<Rightarrow> same_opcode_and_operands inst1 inst2 ignore_target
      | _ \<Rightarrow> False)"

section \<open>Enumeration: WhileEachDecoration, ForEachDecoration\<close>

text \<open>
  The callback of the source may have effects of its own; it is a function from the
  instruction and the caller's state to its verdict and the caller's new state.
\<close>

fun while_each ::
  "ir_state \<Rightarrow> 32 word \<Rightarrow> (Instruction \<Rightarrow> 'a \<Rightarrow> bool \<times> 'a) \<Rightarrow> inst_ptr list \<Rightarrow> 'a
     \<Rightarrow> error + bool \<times> 'a" where
  "while_each s decoration f [] a = Inr (True, a)"
| "while_each s decoration f (h # hs) a =
     bind_e (deref s h) (\<lambda>inst.
       case opcode inst of
         SpvOpMemberDecorate \<Rightarrow>
           bind_e (GetSingleWordInOperand inst 2) (\<lambda>w.
             if w = decoration
             then (if \<not> fst (f inst a) then Inr (False, snd (f inst a))
                   else while_each s decoration f hs (snd (f inst a)))
             else while_each s decoration f hs a)
       | SpvOpDecorate \<Rightarrow>
           bind_e (GetSingleWordInOperand inst 1) (\<lambda>w.
             if w = decoration
             then (if \<not> fst (f inst a) then Inr (False, snd (f inst a))
                   else while_each s decoration f hs (snd (f inst a)))
             else while_each s decoration f hs a)
       | SpvOpDecorateId \<Rightarrow>
           bind_e (GetSingleWordInOperand inst 1) (\<lambda>w.
             if w = decoration
             then (if \<not> fst (f inst a) then Inr (False, snd (f inst a))
                   else while_each s decoration f hs (snd (f inst a)))
             else while_each s decoration f hs a)
       | SpvOpDecorateStringGOOGLE \<Rightarrow>
           bind_e (GetSingleWordInOperand inst 1) (\<lambda>w.
             if w = decoration
             then (if \<not> fst (f inst a) then Inr (False, snd (f inst a))
                   else while_each s decoration f hs (snd (f inst a)))
             else while_each s decoration f hs a)
       | _ \<Rightarrow> Inl AssertionFailure)"

definition WhileEachDecoration ::
  "ir_state \<Rightarrow> spv_id \<Rightarrow> 32 word \<Rightarrow> (Instruction \<Rightarrow> 'a \<Rightarrow> bool \<times> 'a) \<Rightarrow> 'a
     \<Rightarrow> error + bool \<times> 'a" where
  "WhileEachDecoration s i decoration f a =
     bind_e (GetDecorationsFor s i True) (\<lambda>decs. while_each s decoration f decs a)"

definition ForEachDecoration ::
  "ir_state \<Rightarrow> spv_id \<Rightarrow> 32 word \<Rightarrow> (Instruction \<Rightarrow> 'a \<Rightarrow> 'a) \<Rightarrow> 'a \<Rightarrow> error + 'a" where
  "ForEachDecoration s i decoration f a =
     bind_e (WhileEachDecoration s i decoration (\<lambda>inst a'. (True, f inst a')) a)
       (\<lambda>r. Inr (snd r))"

section \<open>The context: ForgetUses, AnalyzeUses, KillInst, GetDef\<close>

text \<open>
  Modelled from the spec: \<^verbatim>\<open>IRContext\<close> (ir_context.h) is not part of the source
  shown. The spec's use tracker is notified through \<^verbatim>\<open>ForgetUses\<close> and
  \<^verbatim>\<open>AnalyzeUses\<close>, and every edit of the instruction store goes "through calls
  that also update the index": forgetting an instruction un-indexes it
  (\<^verbatim>\<open>RemoveDecoration\<close>), analysing it indexes it (\<^verbatim>\<open>AddDecoration\<close>), as the
  comment in \<^verbatim>\<open>CloneDecorations\<close> says ("ForgetUses and AnalyzeUses are going to
  modify it"), and deleting it un-indexes it and takes it out of the store. Each
  notification is recorded in \<open>uses_log\<close>. \<^verbatim>\<open>GetDef(id)\<close> is the live instruction
  whose result id is \<open>id\<close>, if any.
\<close>

definition ForgetUses :: "inst_ptr \<Rightarrow> ir_state \<Rightarrow> error + ir_state" where
  "ForgetUses h s = RemoveDecoration h (log_event (ForgetUsesEv h) s)"

definition AnalyzeUses :: "inst_ptr \<Rightarrow> ir_state \<Rightarrow> error + ir_state" where
  "AnalyzeUses h s = AddDecoration h (log_event (AnalyzeUsesEv h) s)"

definition KillInst :: "inst_ptr \<Rightarrow> ir_state \<Rightarrow> error + ir_state" where
  "KillInst h s =
     bind_e (RemoveDecoration h (log_event (KillInstEv h) s)) (\<lambda>s'.
       Inr (s'\<lparr>insts := (insts s')[h := None],
               annotations := filter (\<lambda>x. x \<noteq> h) (annotations s')\<rparr>))"

definition GetDef :: "ir_state \<Rightarrow> spv_id \<Rightarrow> inst_ptr option" where
  "GetDef s i =
     List.find (\<lambda>h. case insts s ! h of None \<Rightarrow> False | Some inst \<Rightarrow> result_id inst = i)
       [0..<length (insts s)]"

section \<open>CloneDecorations\<close>

text \<open>
  \<^verbatim>\<open>decoration->Clone(...); new_inst->SetInOperand(0, {id}); AddAnnotationInst;
  AnalyzeUses\<close>: the sequence shared by \<^verbatim>\<open>CloneDecorations\<close> and
  \<^verbatim>\<open>RemoveDecorationsFrom\<close>.
\<close>

text \<open>
  The range-for loops of \<^verbatim>\<open>CloneDecorations\<close> and \<^verbatim>\<open>RemoveDecorationsFrom\<close>
  run over the elements their list holds when the loop starts; an instruction indexed
  by a notification during the loop is not visited by it.
\<close>

definition clone_decoration :: "spv_id \<Rightarrow> inst_ptr \<Rightarrow> ir_state \<Rightarrow> error + ir_state" where
  "clone_decoration target h s =
     bind_e (deref s h) (\<lambda>inst.
       bind_e (SetInOperand 0 [target] inst) (\<lambda>new_inst.
         AnalyzeUses (fst (AddAnnotationInst new_inst s)) (snd (AddAnnotationInst new_inst s))))"

definition add_operand_at :: "inst_ptr \<Rightarrow> Operand \<Rightarrow> ir_state \<Rightarrow> error + ir_state" where
  "add_operand_at h operand s =
     bind_e (deref s h) (\<lambda>inst.
       Inr (log_event (OperandEditEv h) (store_inst h (AddOperand operand inst) s)))"

definition clone_member_pair ::
  "spv_id \<Rightarrow> spv_id \<Rightarrow> inst_ptr \<Rightarrow> nat \<Rightarrow> ir_state \<Rightarrow> error + ir_state" where
  "clone_member_pair from to h i s =
     bind_e (deref s h) (\<lambda>inst.
       bind_e (GetInOperand inst i) (\<lambda>operand.
         case words operand of
           [] \<Rightarrow> Inl InvalidAccess
         | w # _ \<Rightarrow>
             if w = from
             then bind_e (add_operand_at h (Operand SPV_OPERAND_TYPE_ID [to]) s) (\<lambda>s1.
                    bind_e (deref s1 h) (\<lambda>inst1.
                      bind_e (GetInOperand inst1 (i + 1)) (\<lambda>literal.
                        add_operand_at h literal s1)))
             else Inr s))"

definition clone_indirect ::
  "spv_id \<Rightarrow> spv_id \<Rightarrow> inst_ptr \<Rightarrow> ir_state \<Rightarrow> error + ir_state" where
  "clone_indirect from to h s =
     bind_e (deref s h) (\<lambda>inst.
       case opcode inst of
         SpvOpGroupDecorate \<Rightarrow>
           bind_e (ForgetUses h s) (\<lambda>s1.
             bind_e (add_operand_at h (Operand SPV_OPERAND_TYPE_ID [to]) s1) (AnalyzeUses h))
       | SpvOpGroupMemberDecorate \<Rightarrow>
           bind_e (ForgetUses h s) (\<lambda>s1.
             bind_e (fold_e (clone_member_pair from to h)
                       (loop_indices 1 2 (NumInOperands inst)) s1)
               (AnalyzeUses h))
       | _ \<Rightarrow> Inl AssertionFailure)"

definition CloneDecorations :: "ir_state \<Rightarrow> spv_id \<Rightarrow> spv_id \<Rightarrow> error + ir_state" where
  "CloneDecorations s from to =
     (case id_to_decoration_insts s from of
        None \<Rightarrow> Inr s
      | Some decoration_list \<Rightarrow>
          if \<not> has_module s then Inl InvalidAccess
          else
            bind_e (fold_e (clone_decoration to) (direct_decorations decoration_list) s)
              (\<lambda>s1. fold_e (clone_indirect from to)
                       (indirect_decorations (target_data s1 from)) s1))"

section \<open>RemoveDecorationsFrom\<close>

text \<open>
  One round of the compaction loop at a slot \<open>i\<close> that holds \<open>id\<close>: the last
  target (and its literal when the stride is 2) is moved into the slot and the list
  shrinks by \<open>stride\<close> operands.
\<close>

definition compact_target :: "nat \<Rightarrow> nat \<Rightarrow> Operand list \<Rightarrow> Operand list" where
  "compact_target stride i ops =
     (let last_operand_index = length ops - stride;
          ops1 = (if i < last_operand_index then ops[i := ops ! last_operand_index] else ops);
          ops2 = (if stride = 2
                  then RemoveInOperand (last_operand_index + 1)
                         (if i < last_operand_index
                          then ops1[i + 1 := ops1 ! (last_operand_index + 1)] else ops1)
                  else ops1)
      in RemoveInOperand last_operand_index ops2)"

lemma length_RemoveInOperand:
  "i < length ops \<Longrightarrow> length (RemoveInOperand i ops) = length ops - 1"
  by (simp add: RemoveInOperand_def)

lemma length_compact_target:
  "0 < stride \<Longrightarrow> stride \<le> length ops \<Longrightarrow> length (compact_target stride i ops) < length ops"
  by (auto simp: compact_target_def Let_def length_RemoveInOperand)

lemma compact_target_decreases:
  "k < length ops \<Longrightarrow> 0 < stride \<Longrightarrow> stride \<le> length ops
     \<Longrightarrow> length (compact_target stride k ops) - k < length ops - k"
  using length_compact_target [of stride ops k] by linarith

text \<open>
  \<^verbatim>\<open>for (i = 1; i < inst->NumInOperands();)\<close> of \<^verbatim>\<open>RemoveDecorationsFrom\<close>. The
  stride is 1 or 2 and \<open>i\<close> starts at 1, so \<open>0 < stride \<le> length ops\<close> holds
  whenever the loop body runs; the function is made total outside that range.
\<close>

function remove_id_loop ::
  "spv_id \<Rightarrow> nat \<Rightarrow> nat \<Rightarrow> Operand list \<Rightarrow> bool \<Rightarrow> error + Operand list \<times> bool" where
  "remove_id_loop i stride k ops was_modified =
     (if k < length ops \<and> 0 < stride \<and> stride \<le> length ops
      then (case words (ops ! k) of
              [w] \<Rightarrow>
                if w \<noteq> i then remove_id_loop i stride (k + stride) ops was_modified
                else remove_id_loop i stride k (compact_target stride k ops) True
            | _ \<Rightarrow> Inl InvalidAccess)
      else if k < length ops then Inl InvalidAccess
      else Inr (ops, was_modified))"
  by pat_completeness auto
termination
  by (relation "measure (\<lambda>(i, stride, k, ops, was_modified). length ops - k)")
     (auto simp: compact_target_decreases)

declare remove_id_loop.simps [simp del]

text \<open>
  Lines 86 to 95: a group-apply instruction left without targets is scheduled for
  deletion; one that was edited and still has targets is forgotten and analysed again.
  The operand list has been compacted in place before either happens.
\<close>

definition retire_or_refresh ::
  "inst_ptr \<Rightarrow> Instruction \<Rightarrow> Operand list \<Rightarrow> bool
     \<Rightarrow> ir_state \<times> inst_ptr list \<times> inst_ptr set
     \<Rightarrow> error + ir_state \<times> inst_ptr list \<times> inst_ptr set" where
  "retire_or_refresh h inst ops was_modified st =
     (case st of (s, insts_to_kill, indirect_decorations_to_remove) \<Rightarrow>
        if length ops = 1
        then Inr (if was_modified
                  then log_event (OperandEditEv h) (store_inst h (inst\<lparr>in_operands := ops\<rparr>) s)
                  else s,
                  insts_to_kill @ [h], insert h indirect_decorations_to_remove)
        else if was_modified
        then bind_e (ForgetUses h
                       (log_event (OperandEditEv h)
                          (store_inst h (inst\<lparr>in_operands := ops\<rparr>) s)))
               (\<lambda>s1. bind_e (AnalyzeUses h s1)
                  (\<lambda>s2. Inr (s2, insts_to_kill, insert h indirect_decorations_to_remove)))
        else Inr (s, insts_to_kill, indirect_decorations_to_remove))"

text \<open>
  Lines 63 to 109: \<open>id\<close> is taken out of the targets of the group-apply instruction,
  and the decorations of the group that are kept are cloned onto \<open>id\<close>.
\<close>

definition detach_from_group ::
  "spv_id \<Rightarrow> inst_ptr \<Rightarrow> Instruction \<Rightarrow> inst_ptr list
     \<Rightarrow> ir_state \<times> inst_ptr list \<times> inst_ptr set
     \<Rightarrow> error + ir_state \<times> inst_ptr list \<times> inst_ptr set" where
  "detach_from_group i h inst group_decorations_to_keep st =
     bind_e (remove_id_loop i (if opcode inst = SpvOpGroupDecorate then 1 else 2) 1
               (in_operands inst) False)
       (\<lambda>(ops, was_modified).
          bind_e (retire_or_refresh h inst ops was_modified st)
            (\<lambda>(s3, insts_to_kill', indirect_decorations_to_remove').
               bind_e (fold_e (clone_decoration i) group_decorations_to_keep s3)
                 (\<lambda>s4. Inr (s4, insts_to_kill', indirect_decorations_to_remove'))))"

definition remove_group_step ::
  "spv_id \<Rightarrow> (Instruction \<Rightarrow> bool) \<Rightarrow> inst_ptr
     \<Rightarrow> ir_state \<times> inst_ptr list \<times> inst_ptr set
     \<Rightarrow> error + ir_state \<times> inst_ptr list \<times> inst_ptr set" where
  "remove_group_step i pred h st =
     bind_e (deref (fst st) h) (\<lambda>inst.
       if \<not> (opcode inst = SpvOpGroupDecorate \<or> opcode inst = SpvOpGroupMemberDecorate)
       then Inl AssertionFailure
       else
       bind_e (GetSingleWordInOperand inst 0) (\<lambda>group_id.
         case id_to_decoration_insts (fst st) group_id of
           None \<Rightarrow> Inl AssertionFailure
         | Some group_data \<Rightarrow>
             bind_e (fold_e (\<lambda>d keep. bind_e (deref (fst st) d)
                               (\<lambda>decoration. Inr (if \<not> pred decoration then keep @ [d] else keep)))
                       (direct_decorations group_data) [])
               (\<lambda>group_decorations_to_keep.
                  if length group_decorations_to_keep = length (direct_decorations group_data)
                  then Inr st
                  else detach_from_group i h inst group_decorations_to_keep st)))"

definition erase_record :: "spv_id \<Rightarrow> ir_state \<Rightarrow> ir_state" where
  "erase_record i s = s\<lparr>id_to_decoration_insts := (id_to_decoration_insts s)(i := None)\<rparr>"

text \<open>
  The end of \<^verbatim>\<open>RemoveDecorationsFrom\<close>: a record whose three lists are empty is
  erased, and the instruction defining the id is deleted when the id was a group.
\<close>

definition prune_record :: "spv_id \<Rightarrow> bool \<Rightarrow> ir_state \<Rightarrow> error + ir_state" where
  "prune_record i is_group s =
     (if direct_decorations (target_data s i) = [] \<and>
         indirect_decorations (target_data s i) = [] \<and>
         decorate_insts (target_data s i) = []
      then (if is_group
            then (case GetDef (erase_record i s) i of
                    None \<Rightarrow> Inr (erase_record i s)
                  | Some d \<Rightarrow> KillInst d (erase_record i s))
            else Inr (erase_record i s))
      else Inr s)"

definition RemoveDecorationsFrom ::
  "ir_state \<Rightarrow> spv_id \<Rightarrow> (Instruction \<Rightarrow> bool) \<Rightarrow> error + ir_state" where
  "RemoveDecorationsFrom s i pred =
     (case id_to_decoration_insts s i of
        None \<Rightarrow> Inr s
      | Some decorations_info \<Rightarrow>
          if \<not> has_module s then Inl InvalidAccess
          else
          bind_e (fold_e (\<lambda>h kill. bind_e (deref s h)
                            (\<lambda>inst. Inr (if pred inst then kill @ [h] else kill)))
                    (direct_decorations decorations_info) [])
            (\<lambda>insts_to_kill.
          bind_e (fold_e (remove_group_step i pred) (indirect_decorations decorations_info)
                    (s, insts_to_kill, {}))
            (\<lambda>(s1, insts_to_kill1, indirect_decorations_to_remove).
          bind_e (fold_e KillInst insts_to_kill1
                    (set_target_data i
                       ((target_data s1 i)\<lparr>indirect_decorations :=
                           filter (\<lambda>h. h \<notin> indirect_decorations_to_remove)
                             (indirect_decorations (target_data s1 i))\<rparr>) s1))
            (\<lambda>s2.
          bind_e (fold_e KillInst
                    (if decorate_insts decorations_info \<noteq> [] \<and>
                        direct_decorations (target_data s2 i) = [] \<and>
                        indirect_decorations (target_data s2 i) = []
                     then decorate_insts (target_data s2 i) else [])
                    s2)
            (\<lambda>s3.
          prune_record i (decorate_insts decorations_info \<noteq> []) s3)))))"

section \<open>What the specification says a lookup returns\<close>

text \<open>
  The specification's \<open>decorationsFor\<close>, written from its words: the direct
  decorations of the id in stored order, then the direct decorations of the group of
  every group-apply instruction in the id's indirect list (one level only), without
  the \<^verbatim>\<open>OpDecorate\<close> instructions of the linkage-attributes kind unless
  \<open>includeLinkage\<close> is set, and nothing for an id without a record.
  \<open>lookup_ok\<close> says that every pointer the lookup follows is live, that every
  group named by a group-apply instruction has a record, and that every
  \<^verbatim>\<open>OpDecorate\<close> met has its decoration-kind operand.
\<close>

definition readable_decoration :: "ir_state \<Rightarrow> inst_ptr \<Rightarrow> bool" where
  "readable_decoration s h =
     (case deref s h of
        Inl _ \<Rightarrow> False
      | Inr inst \<Rightarrow> opcode inst = SpvOpDecorate \<longrightarrow> \<not> isl (GetSingleWordInOperand inst 1))"

definition is_linkage :: "ir_state \<Rightarrow> inst_ptr \<Rightarrow> bool" where
  "is_linkage s h =
     (case deref s h of
        Inl _ \<Rightarrow> False
      | Inr inst \<Rightarrow>
          opcode inst = SpvOpDecorate \<and>
          GetSingleWordInOperand inst 1 = Inr SpvDecorationLinkageAttributes)"

definition group_id_of :: "ir_state \<Rightarrow> inst_ptr \<Rightarrow> spv_id option" where
  "group_id_of s g =
     (case deref s g of
        Inl _ \<Rightarrow> None
      | Inr inst \<Rightarrow>
          (case GetSingleWordInOperand inst 0 of Inl _ \<Rightarrow> None | Inr w \<Rightarrow> Some w))"

definition group_decorations_of :: "ir_state \<Rightarrow> inst_ptr \<Rightarrow> inst_ptr list option" where
  "group_decorations_of s g =
     (case group_id_of s g of
        None \<Rightarrow> None
      | Some group_id \<Rightarrow>
          (case id_to_decoration_insts s group_id of
             None \<Rightarrow> None
           | Some group_data \<Rightarrow> Some (direct_decorations group_data)))"

definition lookup_ok :: "ir_state \<Rightarrow> spv_id \<Rightarrow> bool" where
  "lookup_ok s i =
     (case id_to_decoration_insts s i of
        None \<Rightarrow> True
      | Some td \<Rightarrow>
          list_all (readable_decoration s) (direct_decorations td) \<and>
          list_all (\<lambda>g. case group_decorations_of s g of
                          None \<Rightarrow> False
                        | Some ds \<Rightarrow> list_all (readable_decoration s) ds)
            (indirect_decorations td))"

definition decorationsFor_spec :: "ir_state \<Rightarrow> spv_id \<Rightarrow> bool \<Rightarrow> inst_ptr list" where
  "decorationsFor_spec s i includeLinkage =
     (case id_to_decoration_insts s i of
        None \<Rightarrow> []
      | Some td \<Rightarrow>
          filter (\<lambda>h. includeLinkage \<or> \<not> is_linkage s h)
            (direct_decorations td @
             concat (map (\<lambda>g. case group_decorations_of s g of None \<Rightarrow> [] | Some ds \<Rightarrow> ds)
                       (indirect_decorations td))))"

section \<open>An example module\<close>

text \<open>
  A group \<open>1\<close> with two decorations (kinds 5 and 6), applied by one
  \<^verbatim>\<open>OpGroupDecorate\<close> to the ids \<open>2\<close> and \<open>3\<close>; \<open>example_state\<close> is the
  module with its index built.
\<close>

definition mk_inst :: "SpvOp \<Rightarrow> Operand list \<Rightarrow> Instruction" where
  "mk_inst opc ops = \<lparr>opcode = opc, result_id = 0, in_operands = ops\<rparr>"

definition example_module :: ir_state where
  "example_module =
     \<lparr>insts =
        [Some (mk_inst SpvOpDecorate
                 [Operand SPV_OPERAND_TYPE_ID [1], Operand SPV_OPERAND_TYPE_DECORATION [5]]),
         Some (mk_inst SpvOpDecorate
                 [Operand SPV_OPERAND_TYPE_ID [1], Operand SPV_OPERAND_TYPE_DECORATION [6]]),
         Some \<lparr>opcode = SpvOpDecorationGroup, result_id = 1, in_operands = []\<rparr>,
         Some (mk_inst SpvOpGroupDecorate
                 [Operand SPV_OPERAND_TYPE_ID [1], Operand SPV_OPERAND_TYPE_ID [2],
                  Operand SPV_OPERAND_TYPE_ID [3]])],
      annotations = [0, 1, 2, 3],
      has_module = True,
      id_to_decoration_insts = Map.empty,
      uses_log = []\<rparr>"

definition example_index :: "spv_id \<Rightarrow> TargetData option" where
  "example_index =
     [1 \<mapsto> \<lparr>direct_decorations = [0, 1], indirect_decorations = [], decorate_insts = [3]\<rparr>,
      2 \<mapsto> \<lparr>direct_decorations = [], indirect_decorations = [3], decorate_insts = []\<rparr>,
      3 \<mapsto> \<lparr>direct_decorations = [], indirect_decorations = [3], decorate_insts = []\<rparr>]"

definition example_state :: ir_state where
  "example_state = example_module\<lparr>id_to_decoration_insts := example_index\<rparr>"

section \<open>Predicates and example states of the statements\<close>

text \<open>
  The four direct decoration forms and the two group-apply forms; a group-apply
  instruction whose group can be read (\<open>group_ok\<close>) or has no record
  (\<open>unknown_group\<close>); the predicate that drops everything.
\<close>

fun is_direct_form :: "SpvOp \<Rightarrow> bool" where
  "is_direct_form SpvOpDecorate = True"
| "is_direct_form SpvOpMemberDecorate = True"
| "is_direct_form SpvOpDecorateId = True"
| "is_direct_form SpvOpDecorateStringGOOGLE = True"
| "is_direct_form _ = False"

fun is_group_apply :: "SpvOp \<Rightarrow> bool" where
  "is_group_apply SpvOpGroupDecorate = True"
| "is_group_apply SpvOpGroupMemberDecorate = True"
| "is_group_apply _ = False"

definition group_ok :: "ir_state \<Rightarrow> inst_ptr \<Rightarrow> bool" where
  "group_ok s g =
     (case group_decorations_of s g of
        None \<Rightarrow> False
      | Some ds \<Rightarrow> list_all (readable_decoration s) ds)"

definition unknown_group :: "ir_state \<Rightarrow> inst_ptr \<Rightarrow> bool" where
  "unknown_group s g =
     (case group_id_of s g of
        None \<Rightarrow> False
      | Some group_id \<Rightarrow> id_to_decoration_insts s group_id = None)"

definition always_true :: "Instruction \<Rightarrow> bool" where
  "always_true inst = True"

text \<open>
  \<open>matching s pred hs\<close>: the instructions of \<open>hs\<close> on which the predicate holds,
  the direct decorations \<^verbatim>\<open>RemoveDecorationsFrom\<close> schedules for deletion first.
\<close>

definition matching :: "ir_state \<Rightarrow> (Instruction \<Rightarrow> bool) \<Rightarrow> inst_ptr list \<Rightarrow> inst_ptr list" where
  "matching s pred hs =
     filter (\<lambda>h. case deref s h of Inl _ \<Rightarrow> False | Inr inst \<Rightarrow> pred inst) hs"

text \<open>
  The example with a second group-apply instruction (instruction 4) indexed for the
  id 2, whose group 8 has no record; and the example with a record for the id 5 whose
  direct list holds a decoration followed by the \<^verbatim>\<open>OpDecorationGroup\<close> instruction.
\<close>

definition second_unknown_group_state :: ir_state where
  "second_unknown_group_state =
     example_state
       \<lparr>insts := insts example_state @
          [Some (mk_inst SpvOpGroupDecorate
                   [Operand SPV_OPERAND_TYPE_ID [8], Operand SPV_OPERAND_TYPE_ID [2]])],
        annotations := [0, 1, 2, 3, 4],
        id_to_decoration_insts := example_index
          (2 \<mapsto> \<lparr>direct_decorations = [], indirect_decorations = [3, 4],
                  decorate_insts = []\<rparr>)\<rparr>"

definition second_stray_entry_state :: ir_state where
  "second_stray_entry_state =
     set_target_data 5
       \<lparr>direct_decorations = [0, 2], indirect_decorations = [], decorate_insts = []\<rparr>
       example_state"

text \<open>
  The content of an indexed instruction without its target: its opcode and the
  operands after the first. The positions of the targets in a decoration instruction:
  operand 0 of the four direct forms, every operand after the group of an
  \<^verbatim>\<open>OpGroupDecorate\<close>, every second operand from operand 1 of an
  \<^verbatim>\<open>OpGroupMemberDecorate\<close>. \<open>retarget_operand\<close> is \<^verbatim>\<open>SetInOperand(k, {t})\<close>
  on one stored instruction, the index being left as it is. \<open>holds_group_applies\<close>
  says that the indirect list of an id holds only live group-apply instructions, which
  \<^verbatim>\<open>RemoveDecorationsFrom\<close> asserts of each entry it visits.
\<close>

definition content_of :: "ir_state \<Rightarrow> inst_ptr \<Rightarrow> (SpvOp \<times> Operand list) option" where
  "content_of s h =
     (case deref s h of
        Inl _ \<Rightarrow> None
      | Inr inst \<Rightarrow> Some (opcode inst, drop 1 (in_operands inst)))"

definition is_target_operand :: "Instruction \<Rightarrow> nat \<Rightarrow> bool" where
  "is_target_operand inst k =
     (case opcode inst of
        SpvOpGroupDecorate \<Rightarrow> 1 \<le> k
      | SpvOpGroupMemberDecorate \<Rightarrow> odd k
      | opc \<Rightarrow> is_direct_form opc \<and> k = 0)"

definition retarget_operand :: "inst_ptr \<Rightarrow> nat \<Rightarrow> spv_id \<Rightarrow> ir_state \<Rightarrow> ir_state" where
  "retarget_operand h k t s =
     (case deref s h of
        Inl _ \<Rightarrow> s
      | Inr inst \<Rightarrow>
          (case SetInOperand k [t] inst of
             Inl _ \<Rightarrow> s
           | Inr inst' \<Rightarrow> store_inst h inst' s))"

definition holds_group_applies :: "ir_state \<Rightarrow> spv_id \<Rightarrow> bool" where
  "holds_group_applies s i =
     list_all (\<lambda>g. case deref s g of Inl _ \<Rightarrow> False | Inr inst \<Rightarrow> is_group_apply (opcode inst))
       (indirect_decorations (target_data s i))"

text \<open>
  Two ids, 10 and 11, each with one decoration of kind 5 and one of kind 6, written in
  opposite orders; \<open>crossed_state\<close> is the module with its index built.
\<close>

definition crossed_module :: ir_state where
  "crossed_module =
     \<lparr>insts =
        [Some (mk_inst SpvOpDecorate
                 [Operand SPV_OPERAND_TYPE_ID [10], Operand SPV_OPERAND_TYPE_DECORATION [5]]),
         Some (mk_inst SpvOpDecorate
                 [Operand SPV_OPERAND_TYPE_ID [10], Operand SPV_OPERAND_TYPE_DECORATION [6]]),
         Some (mk_inst SpvOpDecorate
                 [Operand SPV_OPERAND_TYPE_ID [11], Operand SPV_OPERAND_TYPE_DECORATION [6]]),
         Some (mk_inst SpvOpDecorate
                 [Operand SPV_OPERAND_TYPE_ID [11], Operand SPV_OPERAND_TYPE_DECORATION [5]])],
      annotations = [0, 1, 2, 3],
      has_module = True,
      id_to_decoration_insts = Map.empty,
      uses_log = []\<rparr>"

definition crossed_state :: ir_state where
  "crossed_state =
     crossed_module\<lparr>id_to_decoration_insts :=
       [10 \<mapsto> \<lparr>direct_decorations = [0, 1], indirect_decorations = [], decorate_insts = []\<rparr>,
        11 \<mapsto> \<lparr>direct_decorations = [2, 3], indirect_decorations = [], decorate_insts = []\<rparr>]\<rparr>"

text \<open>
  An index in which the indirect list of the id 20 holds instruction 0, a direct
  decoration of the id 1, where a group-apply instruction is expected.
\<close>

definition misfiled_state :: ir_state where
  "misfiled_state =
     \<lparr>insts =
        [Some (mk_inst SpvOpDecorate
                 [Operand SPV_OPERAND_TYPE_ID [1], Operand SPV_OPERAND_TYPE_DECORATION [5]]),
         Some (mk_inst SpvOpDecorate
                 [Operand SPV_OPERAND_TYPE_ID [7], Operand SPV_OPERAND_TYPE_DECORATION [6]])],
      annotations = [0, 1],
      has_module = True,
      id_to_decoration_insts =
        [1 \<mapsto> \<lparr>direct_decorations = [0], indirect_decorations = [], decorate_insts = []\<rparr>,
         7 \<mapsto> \<lparr>direct_decorations = [1], indirect_decorations = [], decorate_insts = []\<rparr>,
         20 \<mapsto> \<lparr>direct_decorations = [], indirect_decorations = [0], decorate_insts = []\<rparr>],
      uses_log = []\<rparr>"

text \<open>
  The flattened payloads of the instructions of one opcode in a list, and the set
  \<^verbatim>\<open>HaveTheSameDecorations\<close> keeps for an opcode.
\<close>

definition payloads :: "ir_state \<Rightarrow> SpvOp \<Rightarrow> inst_ptr list \<Rightarrow> 32 word list set" where
  "payloads s opc hs = {concat (map words ops) |ops. Some (opc, ops) \<in> content_of s ` set hs}"

fun field_of :: "SpvOp \<Rightarrow> DecorationSets \<Rightarrow> 32 word list set" where
  "field_of SpvOpDecorate r = decorate_set r"
| "field_of SpvOpMemberDecorate r = member_decorate_set r"
| "field_of SpvOpDecorateId r = decorate_id_set r"
| "field_of SpvOpDecorateStringGOOGLE r = decorate_string_set r"
| "field_of _ r = {}"

text \<open>
  The invariant of the specification's data model: an id is a key of the index if and
  only if one of the three collections of its record is not empty.
\<close>

definition nonempty_record :: "TargetData \<Rightarrow> bool" where
  "nonempty_record td =
     (direct_decorations td \<noteq> [] \<or> indirect_decorations td \<noteq> [] \<or> decorate_insts td \<noteq> [])"


text \<open>
  Reading a sequence of notifications and operand edits: an edit of an instruction is
  bracketed when it stands between a \<open>ForgetUsesEv\<close> of that instruction and the
  next \<open>AnalyzeUsesEv\<close> of it, with only edits of the same instruction in between.
\<close>

datatype bracket_phase = Outside | Inside inst_ptr | Violated

fun bracket_step :: "bracket_phase \<Rightarrow> event \<Rightarrow> bracket_phase" where
  "bracket_step Outside (ForgetUsesEv h) = Inside h"
| "bracket_step Outside (OperandEditEv h) = Violated"
| "bracket_step Outside (AnalyzeUsesEv h) = Outside"
| "bracket_step Outside (KillInstEv h) = Outside"
| "bracket_step (Inside h) (OperandEditEv h') = (if h' = h then Inside h else Violated)"
| "bracket_step (Inside h) (AnalyzeUsesEv h') = (if h' = h then Outside else Violated)"
| "bracket_step (Inside h) (ForgetUsesEv h') = Violated"
| "bracket_step (Inside h) (KillInstEv h') = Violated"
| "bracket_step Violated ev = Violated"

definition bracketed :: "event list \<Rightarrow> bool" where
  "bracketed evs = (foldl bracket_step Outside evs = Outside)"

definition new_events :: "ir_state \<Rightarrow> ir_state \<Rightarrow> event list" where
  "new_events s s' = drop (length (uses_log s)) (uses_log s')"

definition extends_log :: "ir_state \<Rightarrow> ir_state \<Rightarrow> bool" where
  "extends_log s s' = (take (length (uses_log s)) (uses_log s') = uses_log s)"

text \<open>
  The order \<^verbatim>\<open>RemoveDecorationsFrom\<close> follows instead. Reading a sequence of
  notifications and operand edits, the state is a phase and the set of the instructions
  that were edited without being notified and are not deleted yet. An edit of an
  instruction is settled at once when the next two events are the \<open>ForgetUsesEv\<close>
  and the \<open>AnalyzeUsesEv\<close> of that instruction; any other event after the edit
  leaves the instruction pending, until a \<open>KillInstEv\<close> of it. A
  \<open>ForgetUsesEv\<close> is in order only right after an edit of its instruction, and only
  the \<open>AnalyzeUsesEv\<close> of that instruction may follow it. A sequence is accepted when
  it ends in the phase \<open>Quiet\<close> with nothing pending: every edit was notified at
  once, or its instruction was deleted later.
\<close>

datatype edit_phase = Quiet | JustEdited inst_ptr | JustForgotten inst_ptr | OutOfOrder

fun edit_step :: "edit_phase \<times> inst_ptr set \<Rightarrow> event \<Rightarrow> edit_phase \<times> inst_ptr set" where
  "edit_step (Quiet, pending) (OperandEditEv h) = (JustEdited h, pending)"
| "edit_step (Quiet, pending) (ForgetUsesEv h) = (OutOfOrder, pending)"
| "edit_step (Quiet, pending) (AnalyzeUsesEv h) = (Quiet, pending)"
| "edit_step (Quiet, pending) (KillInstEv h) = (Quiet, pending - {h})"
| "edit_step (JustEdited g, pending) (OperandEditEv h) = (JustEdited h, insert g pending)"
| "edit_step (JustEdited g, pending) (ForgetUsesEv h) =
     (if h = g then (JustForgotten g, pending) else (OutOfOrder, pending))"
| "edit_step (JustEdited g, pending) (AnalyzeUsesEv h) = (Quiet, insert g pending)"
| "edit_step (JustEdited g, pending) (KillInstEv h) = (Quiet, insert g pending - {h})"
| "edit_step (JustForgotten g, pending) (AnalyzeUsesEv h) =
     (if h = g then (Quiet, pending) else (OutOfOrder, pending))"
| "edit_step (JustForgotten g, pending) (OperandEditEv h) = (OutOfOrder, pending)"
| "edit_step (JustForgotten g, pending) (ForgetUsesEv h) = (OutOfOrder, pending)"
| "edit_step (JustForgotten g, pending) (KillInstEv h) = (OutOfOrder, pending)"
| "edit_step (OutOfOrder, pending) ev = (OutOfOrder, pending)"

definition notified_or_deleted :: "event list \<Rightarrow> bool" where
  "notified_or_deleted evs = (foldl edit_step (Quiet, {}) evs = (Quiet, {}))"

text \<open>
  What the loops of \<^verbatim>\<open>RemoveDecorationsFrom\<close> maintain: the phase is not inside a
  notification, and every instruction pending, the one just edited included, is in the
  set \<open>K\<close> of the instructions scheduled for deletion (\<^verbatim>\<open>insts_to_kill\<close>).
\<close>

fun open_phase :: "edit_phase \<Rightarrow> bool" where
  "open_phase Quiet = True"
| "open_phase (JustEdited h) = True"
| "open_phase (JustForgotten h) = False"
| "open_phase OutOfOrder = False"

fun unsettled :: "edit_phase \<Rightarrow> inst_ptr set \<Rightarrow> inst_ptr set" where
  "unsettled (JustEdited h) pending = insert h pending"
| "unsettled Quiet pending = pending"
| "unsettled (JustForgotten h) pending = pending"
| "unsettled OutOfOrder pending = pending"

definition scheduled :: "edit_phase \<times> inst_ptr set \<Rightarrow> inst_ptr set \<Rightarrow> bool" where
  "scheduled st K = (open_phase (fst st) \<and> unsettled (fst st) (snd st) \<subseteq> K)"

definition tracks :: "event list \<Rightarrow> inst_ptr set \<Rightarrow> inst_ptr set \<Rightarrow> bool" where
  "tracks evs K K' = (\<forall>st. scheduled st K \<longrightarrow> scheduled (foldl edit_step st evs) K')"

definition tracked :: "ir_state \<Rightarrow> inst_ptr set \<Rightarrow> ir_state \<Rightarrow> inst_ptr set \<Rightarrow> bool" where
  "tracked s K s' K' = (\<exists>evs. uses_log s' = uses_log s @ evs \<and> tracks evs K K')"

text \<open>
  A group 1 with one decoration, applied by instruction 2 to the single id 2, with its
  index built.
\<close>

definition single_target_state :: ir_state where
  "single_target_state =
     \<lparr>insts =
        [Some (mk_inst SpvOpDecorate
                 [Operand SPV_OPERAND_TYPE_ID [1], Operand SPV_OPERAND_TYPE_DECORATION [5]]),
         Some \<lparr>opcode = SpvOpDecorationGroup, result_id = 1, in_operands = []\<rparr>,
         Some (mk_inst SpvOpGroupDecorate
                 [Operand SPV_OPERAND_TYPE_ID [1], Operand SPV_OPERAND_TYPE_ID [2]])],
      annotations = [0, 1, 2],
      has_module = True,
      id_to_decoration_insts =
        [1 \<mapsto> \<lparr>direct_decorations = [0], indirect_decorations = [], decorate_insts = [2]\<rparr>,
         2 \<mapsto> \<lparr>direct_decorations = [], indirect_decorations = [2], decorate_insts = []\<rparr>],
      uses_log = []\<rparr>"

definition drops_kind_6 :: "Instruction \<Rightarrow> bool" where
  "drops_kind_6 inst = (GetSingleWordInOperand inst 1 = Inr 6)"

text \<open>
  The modules of the group scenarios: the decorations \<open>ds\<close> of a group \<open>G\<close>, the
  \<^verbatim>\<open>OpDecorationGroup\<close> defining \<open>G\<close>, and one \<^verbatim>\<open>OpGroupDecorate\<close> applying \<open>G\<close>
  to the ids \<open>targets\<close>. \<open>decorates G d\<close> says that \<open>d\<close> is a direct decoration of
  \<open>G\<close>: one of the four direct forms, with the target operand \<open>G\<close> and a one-word
  second operand.
\<close>

definition decorates :: "spv_id \<Rightarrow> Instruction \<Rightarrow> bool" where
  "decorates G d =
     (is_direct_form (opcode d) \<and>
      (case in_operands d of
         target # kind # payload \<Rightarrow> words target = [G] \<and> length (words kind) = 1
       | _ \<Rightarrow> False))"

definition group_module :: "spv_id \<Rightarrow> spv_id list \<Rightarrow> Instruction list \<Rightarrow> ir_state" where
  "group_module G targets ds =
     \<lparr>insts = map Some ds @
        [Some \<lparr>opcode = SpvOpDecorationGroup, result_id = G, in_operands = []\<rparr>,
         Some (mk_inst SpvOpGroupDecorate
                 (Operand SPV_OPERAND_TYPE_ID [G] #
                  map (\<lambda>t. Operand SPV_OPERAND_TYPE_ID [t]) targets))],
      annotations = [0..<length ds + 2],
      has_module = True,
      id_to_decoration_insts = Map.empty,
      uses_log = []\<rparr>"

text \<open>Two decorations of the group 1, of kinds 5 and 6, for the concrete scenarios.\<close>

definition kind_5_of_group_1 :: Instruction where
  "kind_5_of_group_1 =
     mk_inst SpvOpDecorate
       [Operand SPV_OPERAND_TYPE_ID [1], Operand SPV_OPERAND_TYPE_DECORATION [5]]"

definition kind_6_of_group_1 :: Instruction where
  "kind_6_of_group_1 =
     mk_inst SpvOpDecorate
       [Operand SPV_OPERAND_TYPE_ID [1], Operand SPV_OPERAND_TYPE_DECORATION [6]]"

text \<open>
  A module in which the group 1, with one decoration, is applied by an
  \<^verbatim>\<open>OpGroupMemberDecorate\<close> to member 7 of the structure type 2.
\<close>

definition member_group_module :: ir_state where
  "member_group_module =
     \<lparr>insts =
        [Some kind_5_of_group_1,
         Some \<lparr>opcode = SpvOpDecorationGroup, result_id = 1, in_operands = []\<rparr>,
         Some (mk_inst SpvOpGroupMemberDecorate
                 [Operand SPV_OPERAND_TYPE_ID [1], Operand SPV_OPERAND_TYPE_ID [2],
                  Operand SPV_OPERAND_TYPE_LITERAL_INTEGER [7]])],
      annotations = [0, 1, 2],
      has_module = True,
      id_to_decoration_insts = Map.empty,
      uses_log = []\<rparr>"

text \<open>
  \<open>nonempty_outside K s\<close>: every record of the index whose key is not in \<open>K\<close> has a
  non-empty list. \<open>no_member_groups s\<close>: no live instruction is an
  \<^verbatim>\<open>OpGroupMemberDecorate\<close>.
\<close>

definition nonempty_outside :: "spv_id set \<Rightarrow> ir_state \<Rightarrow> bool" where
  "nonempty_outside K s =
     (\<forall>i td. id_to_decoration_insts s i = Some td \<longrightarrow> i \<in> K \<or> nonempty_record td)"



section \<open>Basic facts about the error monad and loops\<close>

lemma bind_e_Inr [simp]: "bind_e (Inr x) f = f x"
  by (simp add: bind_e_def)

lemma bind_e_Inl [simp]: "bind_e (Inl e) f = Inl e"
  by (simp add: bind_e_def)

lemma bind_e_eq_Inr:
  "bind_e r f = Inr y \<longleftrightarrow> (\<exists>x. r = Inr x \<and> f x = Inr y)"
  by (cases r) simp_all

lemma fold_e_append:
  "fold_e f (xs @ ys) s = bind_e (fold_e f xs s) (fold_e f ys)"
  by (induction xs arbitrary: s) (simp_all add: bind_e_def split: sum.splits)

lemma fold_e_cong:
  "(\<And>x a. x \<in> set xs \<Longrightarrow> f x a = g x a) \<Longrightarrow> fold_e f xs s = fold_e g xs s"
  by (induction xs arbitrary: s) (simp_all add: bind_e_def split: sum.splits)

text \<open>The definitions unfolded to evaluate the operations on a concrete module.\<close>

lemmas example_defs = example_state_def example_index_def example_module_def mk_inst_def

lemmas access_defs = deref_def GetSingleWordInOperand_def GetInOperand_def NumInOperands_def

lemmas index_defs = target_data_def set_target_data_def push_direct_def push_indirect_def
  push_decorate_inst_def remove_direct_def remove_indirect_def remove_decorate_inst_def
  remove_from_container_def empty_TargetData_def erase_record_def

lemmas edit_defs = RemoveDecorationsFrom_def remove_group_step_def detach_from_group_def
  retire_or_refresh_def prune_record_def CloneDecorations_def clone_indirect_def
  clone_member_pair_def add_operand_at_def clone_decoration_def KillInst_def GetDef_def
  ForgetUses_def AnalyzeUses_def AddDecoration_def RemoveDecoration_def
  RemoveDecoration_group_def AddAnnotationInst_def SetInOperand_def AddOperand_def
  store_inst_def log_event_def compact_target_def RemoveInOperand_def
  loop_indices.simps remove_id_loop.simps upt_rec

section \<open>Ids without a record\<close>

text \<open>
  C9: when \<open>from\<close> has no record in the index, \<open>CloneDecorations\<close> returns the
  state it was given: no instruction is added or changed, nothing is notified, and the
  index (the record of \<open>to\<close> included) is the same.
\<close>

theorem CloneDecorations_no_record:
  "id_to_decoration_insts s from = None \<Longrightarrow> CloneDecorations s from to = Inr s"
  by (simp add: CloneDecorations_def)

theorem CloneDecorations_no_record_witness:
  "id_to_decoration_insts example_state 9 = None \<and>
   CloneDecorations example_state 9 2 = Inr example_state"
proof -
  have h: "id_to_decoration_insts example_state 9 = None"
    by (simp add: example_state_def example_index_def)
  show ?thesis using h CloneDecorations_no_record [OF h, of 2] by simp
qed

text \<open>
  C10: two ids that both have no record in the index compare as carrying the same
  decorations.
\<close>

theorem HaveTheSameDecorations_no_records:
  "id_to_decoration_insts s x = None \<Longrightarrow> id_to_decoration_insts s y = None
     \<Longrightarrow> HaveTheSameDecorations s x y = Inr True"
  by (simp add: HaveTheSameDecorations_def GetDecorationsFor_def bind_e_def
        fillDecorationSets_def)

theorem HaveTheSameDecorations_no_records_witness:
  "id_to_decoration_insts example_state 8 = None \<and>
   id_to_decoration_insts example_state 9 = None \<and>
   HaveTheSameDecorations example_state 8 9 = Inr True"
proof -
  have h8: "id_to_decoration_insts example_state 8 = None"
    by (simp add: example_state_def example_index_def)
  have h9: "id_to_decoration_insts example_state 9 = None"
    by (simp add: example_state_def example_index_def)
  show ?thesis using h8 h9 HaveTheSameDecorations_no_records [OF h8 h9] by simp
qed

section \<open>Lookup returns what the specification says\<close>

lemma process_direct_decorations_readable:
  "list_all (readable_decoration s) ds \<Longrightarrow>
   process_direct_decorations s incl ds decs =
     Inr (decs @ filter (\<lambda>h. incl \<or> \<not> is_linkage s h) ds)"
proof (induction ds arbitrary: decs)
  case Nil
  then show ?case by (simp add: process_direct_decorations_def)
next
  case (Cons h ds)
  from Cons.prems obtain inst where d: "deref s h = Inr inst"
    and r: "opcode inst = SpvOpDecorate \<longrightarrow> \<not> isl (GetSingleWordInOperand inst 1)"
    by (auto simp: readable_decoration_def split: sum.splits)
  have rest: "list_all (readable_decoration s) ds" using Cons.prems by simp
  have step: "process_direct_decorations s incl (h # ds) decs =
        process_direct_decorations s incl ds
          (if incl \<or> \<not> is_linkage s h then decs @ [h] else decs)"
    using d r
    by (cases "GetSingleWordInOperand inst 1")
       (auto simp: process_direct_decorations_def is_linkage_def)
  show ?case
    unfolding step using Cons.IH [OF rest] by simp
qed

lemma indirect_fold_ok:
  "list_all (\<lambda>g. case group_decorations_of s g of
                   None \<Rightarrow> False
                 | Some ds \<Rightarrow> list_all (readable_decoration s) ds) gs \<Longrightarrow>
   fold_e (\<lambda>h decs.
        bind_e (deref s h) (\<lambda>inst.
          bind_e (GetSingleWordInOperand inst 0) (\<lambda>group_id.
            case id_to_decoration_insts s group_id of
              None \<Rightarrow> Inl AssertionFailure
            | Some group_data \<Rightarrow>
                process_direct_decorations s incl (direct_decorations group_data) decs)))
     gs decs =
   Inr (decs @ filter (\<lambda>h. incl \<or> \<not> is_linkage s h)
          (concat (map (\<lambda>g. case group_decorations_of s g of None \<Rightarrow> [] | Some ds \<Rightarrow> ds) gs)))"
proof (induction gs arbitrary: decs)
  case Nil
  then show ?case by simp
next
  case (Cons g gs)
  from Cons.prems obtain ds where g: "group_decorations_of s g = Some ds"
    and r: "list_all (readable_decoration s) ds"
    by (auto split: option.splits)
  from g obtain inst gid gd where d: "deref s g = Inr inst"
    and w: "GetSingleWordInOperand inst 0 = Inr gid"
    and rec: "id_to_decoration_insts s gid = Some gd" and ds: "ds = direct_decorations gd"
    by (auto simp: group_decorations_of_def group_id_of_def split: sum.splits option.splits)
  have rest: "list_all (\<lambda>g. case group_decorations_of s g of
                   None \<Rightarrow> False
                 | Some ds \<Rightarrow> list_all (readable_decoration s) ds) gs"
    using Cons.prems by simp
  show ?case
    using d w rec r g Cons.IH [OF rest]
    by (simp add: ds process_direct_decorations_readable)
qed

lemma process_direct_decorations_Inr:
  "process_direct_decorations s incl ds decs = Inr r \<Longrightarrow> list_all (readable_decoration s) ds"
proof (induction ds arbitrary: decs)
  case Nil
  then show ?case by simp
next
  case (Cons h ds)
  from Cons.prems obtain inst a where d: "deref s h = Inr inst"
    and l: "(if opcode inst = SpvOpDecorate
             then bind_e (GetSingleWordInOperand inst 1)
                    (\<lambda>w. Inr (w = SpvDecorationLinkageAttributes))
             else Inr False) = Inr a"
    and rest: "process_direct_decorations s incl ds
                 (if incl \<or> \<not> a then decs @ [h] else decs) = Inr r"
    by (auto simp: process_direct_decorations_def bind_e_eq_Inr)
  from d l have "readable_decoration s h"
    by (auto simp: readable_decoration_def bind_e_eq_Inr split: if_splits)
  with Cons.IH [OF rest] show ?case by simp
qed

lemma indirect_fold_Inr:
  "fold_e (\<lambda>h decs.
        bind_e (deref s h) (\<lambda>inst.
          bind_e (GetSingleWordInOperand inst 0) (\<lambda>group_id.
            case id_to_decoration_insts s group_id of
              None \<Rightarrow> Inl AssertionFailure
            | Some group_data \<Rightarrow>
                process_direct_decorations s incl (direct_decorations group_data) decs)))
     gs decs = Inr r \<Longrightarrow>
   list_all (\<lambda>g. case group_decorations_of s g of
                   None \<Rightarrow> False
                 | Some ds \<Rightarrow> list_all (readable_decoration s) ds) gs"
proof (induction gs arbitrary: decs)
  case Nil
  then show ?case by simp
next
  case (Cons g gs)
  from Cons.prems obtain inst gid gd a where d: "deref s g = Inr inst"
    and w: "GetSingleWordInOperand inst 0 = Inr gid"
    and rec: "id_to_decoration_insts s gid = Some gd"
    and p: "process_direct_decorations s incl (direct_decorations gd) decs = Inr a"
    and rest: "fold_e (\<lambda>h decs.
        bind_e (deref s h) (\<lambda>inst.
          bind_e (GetSingleWordInOperand inst 0) (\<lambda>group_id.
            case id_to_decoration_insts s group_id of
              None \<Rightarrow> Inl AssertionFailure
            | Some group_data \<Rightarrow>
                process_direct_decorations s incl (direct_decorations group_data) decs)))
     gs a = Inr r"
    by (auto simp: bind_e_eq_Inr split: option.splits)
  have "group_decorations_of s g = Some (direct_decorations gd)"
    using d w rec by (simp add: group_decorations_of_def group_id_of_def)
  with process_direct_decorations_Inr [OF p] Cons.IH [OF rest] show ?case by simp
qed

lemma GetDecorationsFor_Inr_lookup_ok:
  assumes "GetDecorationsFor s i incl = Inr ds"
  shows "lookup_ok s i"
proof (cases "id_to_decoration_insts s i")
  case None
  then show ?thesis by (simp add: lookup_ok_def)
next
  case (Some td)
  with assms obtain a where
    "process_direct_decorations s incl (direct_decorations td) [] = Inr a"
    "fold_e (\<lambda>h decs.
        bind_e (deref s h) (\<lambda>inst.
          bind_e (GetSingleWordInOperand inst 0) (\<lambda>group_id.
            case id_to_decoration_insts s group_id of
              None \<Rightarrow> Inl AssertionFailure
            | Some group_data \<Rightarrow>
                process_direct_decorations s incl (direct_decorations group_data) decs)))
     (indirect_decorations td) a = Inr ds"
    by (auto simp: GetDecorationsFor_def bind_e_eq_Inr)
  then show ?thesis
    using Some
    by (auto simp: lookup_ok_def dest: process_direct_decorations_Inr indirect_fold_Inr)
qed

lemma GetDecorationsFor_lookup_ok:
  assumes ok: "lookup_ok s i"
  shows "GetDecorationsFor s i includeLinkage = Inr (decorationsFor_spec s i includeLinkage)"
proof (cases "id_to_decoration_insts s i")
  case None
  then show ?thesis by (simp add: GetDecorationsFor_def decorationsFor_spec_def)
next
  case (Some td)
  with ok have a: "list_all (readable_decoration s) (direct_decorations td)"
    and b: "list_all (\<lambda>g. case group_decorations_of s g of
                 None \<Rightarrow> False
               | Some ds \<Rightarrow> list_all (readable_decoration s) ds) (indirect_decorations td)"
    by (simp_all add: lookup_ok_def)
  show ?thesis
    using Some
    by (simp add: GetDecorationsFor_def decorationsFor_spec_def
          process_direct_decorations_readable [OF a] indirect_fold_ok [OF b])
qed

text \<open>
  C5: \<open>GetDecorationsFor\<close> returns exactly the specification's sequence: the direct
  decorations of the id in stored order, then, for each group-apply instruction of the
  indirect list in order, the direct decorations of its group, with the linkage
  \<^verbatim>\<open>OpDecorate\<close> instructions left out unless \<open>includeLinkage\<close>; and the empty
  sequence, not an error, for an id without a record. It returns a sequence exactly
  when every pointer and group it follows can be read (\<open>lookup_ok\<close>).
\<close>

theorem GetDecorationsFor_refines_spec:
  "(GetDecorationsFor s i includeLinkage = Inr ds) =
     (lookup_ok s i \<and> ds = decorationsFor_spec s i includeLinkage) \<and>
   (id_to_decoration_insts s i = None \<longrightarrow> GetDecorationsFor s i includeLinkage = Inr [])"
  using GetDecorationsFor_lookup_ok [of s i includeLinkage]
    GetDecorationsFor_Inr_lookup_ok [of s i includeLinkage ds]
  by (auto simp: GetDecorationsFor_def)

theorem GetDecorationsFor_refines_spec_witness:
  "lookup_ok example_state 2 \<and>
   decorationsFor_spec example_state 2 False = [0, 1] \<and>
   GetDecorationsFor example_state 2 False = Inr [0, 1] \<and>
   id_to_decoration_insts example_state 9 = None \<and>
   GetDecorationsFor example_state 9 False = Inr []"
proof -
  have ok: "lookup_ok example_state 2"
    by (simp add: lookup_ok_def example_defs access_defs group_decorations_of_def
          group_id_of_def readable_decoration_def)
  have none: "id_to_decoration_insts example_state 9 = None"
    by (simp add: example_defs)
  have val: "decorationsFor_spec example_state 2 False = [0, 1]"
    by (simp add: decorationsFor_spec_def example_defs access_defs group_decorations_of_def
          group_id_of_def is_linkage_def SpvDecorationLinkageAttributes_def)
  show ?thesis
    using ok none val GetDecorationsFor_refines_spec [of example_state 2 False "[0, 1]"]
      GetDecorationsFor_refines_spec [of example_state 9 False "[]"]
    by simp
qed

section \<open>Assertion failures and tolerated inputs\<close>

lemma GetDecorationsFor_unknown_group:
  assumes rec: "id_to_decoration_insts s i = Some td"
    and dir: "list_all (readable_decoration s) (direct_decorations td)"
    and ind: "indirect_decorations td = pre @ g # post"
    and pre: "list_all (group_ok s) pre"
    and bad: "unknown_group s g"
  shows "GetDecorationsFor s i incl = Inl AssertionFailure"
proof -
  from bad obtain inst gid where d: "deref s g = Inr inst"
    and w: "GetSingleWordInOperand inst 0 = Inr gid"
    and none: "id_to_decoration_insts s gid = None"
    by (auto simp: unknown_group_def group_id_of_def split: sum.splits option.splits)
  have pre': "list_all (\<lambda>g. case group_decorations_of s g of
                   None \<Rightarrow> False
                 | Some ds \<Rightarrow> list_all (readable_decoration s) ds) pre"
    using pre by (simp add: group_ok_def [abs_def])
  show ?thesis
    using rec d w none
    by (simp add: GetDecorationsFor_def ind fold_e_append
          process_direct_decorations_readable [OF dir] indirect_fold_ok [OF pre'])
qed

lemma collect_kill_matching:
  "list_all (\<lambda>h. \<not> isl (deref s h)) ds \<Longrightarrow>
   fold_e (\<lambda>h kill. bind_e (deref s h)
             (\<lambda>inst. Inr (if pred inst then kill @ [h] else kill))) ds acc
     = Inr (acc @ matching s pred ds)"
proof (induction ds arbitrary: acc)
  case Nil
  then show ?case by (simp add: matching_def)
next
  case (Cons h ds)
  then obtain inst where "deref s h = Inr inst"
    by (cases "deref s h") auto
  with Cons show ?case by (simp add: matching_def)
qed

lemma remove_group_step_unknown_group:
  assumes "deref (fst st) g = Inr inst" and "is_group_apply (opcode inst)"
    and "unknown_group (fst st) g"
  shows "remove_group_step i pred g st = Inl AssertionFailure"
proof -
  from assms(1,3) obtain gid where w: "GetSingleWordInOperand inst 0 = Inr gid"
    and none: "id_to_decoration_insts (fst st) gid = None"
    by (auto simp: unknown_group_def group_id_of_def split: sum.splits option.splits)
  show ?thesis
    using assms(1,2) w none
    by (cases "opcode inst") (simp_all add: remove_group_step_def)
qed

lemma RemoveDecorationsFrom_reaches_unknown_group:
  assumes rec: "id_to_decoration_insts s i = Some td"
    and m: "has_module s"
    and dir: "list_all (\<lambda>h. \<not> isl (deref s h)) (direct_decorations td)"
    and ind: "indirect_decorations td = pre @ g # post"
    and reach: "fold_e (remove_group_step i pred) pre
                  (s, matching s pred (direct_decorations td), {}) = Inr st"
    and d: "deref (fst st) g = Inr inst"
    and opc: "is_group_apply (opcode inst)"
    and bad: "unknown_group (fst st) g"
  shows "RemoveDecorationsFrom s i pred = Inl AssertionFailure"
proof -
  have k: "fold_e (\<lambda>h kill. bind_e (deref s h)
                     (\<lambda>inst. Inr (if pred inst then kill @ [h] else kill)))
          (direct_decorations td) [] = Inr (matching s pred (direct_decorations td))"
    using collect_kill_matching [OF dir, of pred "[]"] by simp
  have step: "remove_group_step i pred g st = Inl AssertionFailure"
    using d opc bad by (rule remove_group_step_unknown_group)
  show ?thesis
    using rec m k reach step by (simp add: RemoveDecorationsFrom_def ind fold_e_append)
qed

lemma AreDecorationsTheSame_other_opcode:
  "\<not> is_direct_form (opcode inst1) \<Longrightarrow> AreDecorationsTheSame inst1 inst2 ignore_target = False"
  by (cases "opcode inst1") (simp_all add: AreDecorationsTheSame_def)

lemma while_each_unexpected:
  "deref s h = Inr inst \<Longrightarrow> \<not> is_direct_form (opcode inst)
     \<Longrightarrow> while_each s decoration f (h # hs) a = Inl AssertionFailure"
  by (cases "opcode inst") simp_all

lemma while_each_append:
  "while_each s decoration f (pre @ rest) a =
     bind_e (while_each s decoration f pre a)
       (\<lambda>r. if fst r then while_each s decoration f rest (snd r) else Inr r)"
proof (induction pre arbitrary: a)
  case Nil
  then show ?case by simp
next
  case (Cons h pre)
  show ?case
  proof (cases "deref s h")
    case (Inl e)
    then show ?thesis by simp
  next
    case (Inr inst)
    have sw: "bind_e r (\<lambda>w. if w = decoration
             then (if \<not> fst (f inst a) then Inr (False, snd (f inst a))
                   else while_each s decoration f (pre @ rest) (snd (f inst a)))
             else while_each s decoration f (pre @ rest) a) =
       bind_e (bind_e r (\<lambda>w. if w = decoration
             then (if \<not> fst (f inst a) then Inr (False, snd (f inst a))
                   else while_each s decoration f pre (snd (f inst a)))
             else while_each s decoration f pre a))
         (\<lambda>r. if fst r then while_each s decoration f rest (snd r) else Inr r)" for r
      by (cases r) (simp_all add: Cons.IH)
    show ?thesis
      using Inr by (cases "opcode inst") (simp_all add: sw)
  qed
qed

lemma while_each_reaches_unexpected:
  assumes "while_each s decoration f pre a = Inr (True, a')"
    and "deref s h = Inr inst" and "\<not> is_direct_form (opcode inst)"
  shows "while_each s decoration f (pre @ h # post) a = Inl AssertionFailure"
proof -
  have "while_each s decoration f (h # post) a' = Inl AssertionFailure"
    using assms(2,3) by (rule while_each_unexpected)
  then show ?thesis
    using assms(1) by (simp only: while_each_append bind_e_Inr fst_conv snd_conv if_True)
qed

lemma RemoveDecoration_unrecognised:
  "deref s h = Inr inst \<Longrightarrow> \<not> is_direct_form (opcode inst) \<Longrightarrow> \<not> is_group_apply (opcode inst)
     \<Longrightarrow> RemoveDecoration h s = Inr s"
  by (cases "opcode inst") (simp_all add: RemoveDecoration_def)

text \<open>
  C6, as the code has it: (a) a lookup aborts at the first group-apply instruction of
  the indirect list whose group id has no record, and \<open>RemoveDecorationsFrom\<close>
  aborts when its loop reaches, at any position of the indirect list, a group-apply
  instruction whose group id has no record at that moment; (b) the comparison of two
  instructions returns false, without failing, when the first opcode is not one of the
  four direct forms; (c) the enumeration, with or without early exit, aborts when it
  reaches, at any position, an instruction that is not of a direct form, while
  \<open>RemoveDecoration\<close> returns normally and changes nothing for an opcode outside the
  six forms. Reaching a position means that the steps before it returned without
  error and, for the enumeration, that the callback did not stop it.
\<close>

theorem fatal_and_tolerated_conditions:
  "(id_to_decoration_insts s i = Some td \<and>
    list_all (readable_decoration s) (direct_decorations td) \<and>
    indirect_decorations td = pre @ g # post \<and> list_all (group_ok s) pre \<and>
    unknown_group s g
      \<longrightarrow> GetDecorationsFor s i incl = Inl AssertionFailure) \<and>
   (id_to_decoration_insts s i = Some td \<and> has_module s \<and>
    list_all (\<lambda>h. \<not> isl (deref s h)) (direct_decorations td) \<and>
    indirect_decorations td = pre @ g # post \<and>
    fold_e (remove_group_step i pred) pre
      (s, matching s pred (direct_decorations td), {}) = Inr st \<and>
    deref (fst st) g = Inr ginst \<and> is_group_apply (opcode ginst) \<and>
    unknown_group (fst st) g
      \<longrightarrow> RemoveDecorationsFrom s i pred = Inl AssertionFailure) \<and>
   (\<not> is_direct_form (opcode inst1)
      \<longrightarrow> AreDecorationsTheSame inst1 inst2 ignore_target = False) \<and>
   (GetDecorationsFor s i True = Inr (hs @ h # hs') \<and>
    while_each s decoration f hs a = Inr (True, a') \<and>
    deref s h = Inr inst \<and> \<not> is_direct_form (opcode inst)
      \<longrightarrow> WhileEachDecoration s i decoration f a = Inl AssertionFailure) \<and>
   (GetDecorationsFor s i True = Inr (hs @ h # hs') \<and>
    while_each s decoration (\<lambda>inst b. (True, f' inst b)) hs a = Inr (True, a'') \<and>
    deref s h = Inr inst \<and> \<not> is_direct_form (opcode inst)
      \<longrightarrow> ForEachDecoration s i decoration f' a = Inl AssertionFailure) \<and>
   (deref s h = Inr inst \<and> \<not> is_direct_form (opcode inst) \<and> \<not> is_group_apply (opcode inst)
      \<longrightarrow> RemoveDecoration h s = Inr s)"
  using GetDecorationsFor_unknown_group [of s i td pre g post incl]
    RemoveDecorationsFrom_reaches_unknown_group [of s i td pre g post pred st ginst]
    AreDecorationsTheSame_other_opcode [of inst1 inst2 ignore_target]
    while_each_reaches_unexpected [of s decoration f hs a a' h inst hs']
    while_each_reaches_unexpected [of s decoration "\<lambda>inst b. (True, f' inst b)" hs a a'' h
      inst hs']
    RemoveDecoration_unrecognised [of s h inst]
  by (simp add: WhileEachDecoration_def ForEachDecoration_def)

text \<open>
  Un-indexing the \<^verbatim>\<open>OpDecorationGroup\<close> instruction of the example, whose opcode is
  none of the six forms, returns normally; comparing two group-apply instructions
  returns false.
\<close>

theorem fatal_conditions_counterexample:
  "RemoveDecoration 2 example_state = Inr example_state \<and>
   RemoveDecoration 2 example_state \<noteq> Inl AssertionFailure \<and>
   \<not> AreDecorationsTheSame (mk_inst SpvOpGroupDecorate []) (mk_inst SpvOpGroupDecorate []) True"
  by (simp add: RemoveDecoration_def AreDecorationsTheSame_def example_defs access_defs)

theorem fatal_and_tolerated_conditions_witness:
  "unknown_group second_unknown_group_state 4 \<and>
   GetDecorationsFor second_unknown_group_state 2 True = Inl AssertionFailure \<and>
   RemoveDecorationsFrom second_unknown_group_state 2 drops_kind_6 = Inl AssertionFailure \<and>
   AreDecorationsTheSame (mk_inst SpvOpDecorationGroup []) (mk_inst SpvOpDecorationGroup []) True
     = False \<and>
   GetDecorationsFor second_stray_entry_state 5 True = Inr [0, 2] \<and>
   WhileEachDecoration second_stray_entry_state 5 5 (\<lambda>inst n. (True, Suc n)) (0::nat)
     = Inl AssertionFailure \<and>
   ForEachDecoration second_stray_entry_state 5 5 (\<lambda>inst n. Suc n) (0::nat)
     = Inl AssertionFailure \<and>
   RemoveDecoration 2 example_state = Inr example_state"
proof -
  let ?u = second_unknown_group_state
  let ?v = second_stray_entry_state
  let ?td = "\<lparr>direct_decorations = [], indirect_decorations = [3, 4], decorate_insts = []\<rparr>"
  let ?g = "mk_inst SpvOpGroupDecorate
              [Operand SPV_OPERAND_TYPE_ID [8], Operand SPV_OPERAND_TYPE_ID [2]]"
  let ?d = "\<lparr>opcode = SpvOpDecorationGroup, result_id = 1, in_operands = []\<rparr>"
  have rec: "id_to_decoration_insts ?u 2 = Some ?td"
    by (simp add: second_unknown_group_state_def example_defs)
  have m: "has_module ?u"
    by (simp add: second_unknown_group_state_def example_defs)
  have bad: "unknown_group ?u 4"
    by (simp add: unknown_group_def group_id_of_def second_unknown_group_state_def
          example_defs access_defs)
  have ok3: "group_ok ?u 3"
    by (simp add: group_ok_def group_decorations_of_def group_id_of_def
          readable_decoration_def second_unknown_group_state_def example_defs access_defs)
  obtain st where reach: "fold_e (remove_group_step 2 drops_kind_6) [3]
        (?u, matching ?u drops_kind_6 (direct_decorations ?td), {}) = Inr st"
    and dg: "deref (fst st) 4 = Inr ?g" and bad': "unknown_group (fst st) 4"
  proof -
    have "\<exists>st. fold_e (remove_group_step 2 drops_kind_6) [3]
        (?u, matching ?u drops_kind_6 (direct_decorations ?td), {}) = Inr st \<and>
        deref (fst st) 4 = Inr ?g \<and> unknown_group (fst st) 4"
      by (simp add: matching_def unknown_group_def group_id_of_def
            second_unknown_group_state_def edit_defs example_defs access_defs index_defs
            drops_kind_6_def)
    then show ?thesis using that by blast
  qed
  have d2: "deref ?v 2 = Inr ?d"
    by (simp add: second_stray_entry_state_def set_target_data_def example_defs access_defs)
  have g5: "GetDecorationsFor ?v 5 True = Inr ([0] @ 2 # [])"
    by (simp add: GetDecorationsFor_def process_direct_decorations_def
          second_stray_entry_state_def set_target_data_def example_defs access_defs
          SpvDecorationLinkageAttributes_def)
  have w1: "while_each ?v 5 (\<lambda>inst n. (True, Suc n)) [0] (0::nat) = Inr (True, 1)"
    by (simp add: second_stray_entry_state_def set_target_data_def example_defs access_defs)
  have d2': "deref example_state 2 = Inr ?d"
    by (simp add: example_defs access_defs)
  have a: "GetDecorationsFor ?u 2 True = Inl AssertionFailure"
    using rec bad ok3
      fatal_and_tolerated_conditions [where s = ?u and i = 2 and td = ?td and pre = "[3]"
        and g = 4 and post = "[]" and incl = True, THEN conjunct1]
    by simp
  have b: "RemoveDecorationsFrom ?u 2 drops_kind_6 = Inl AssertionFailure"
    using rec m reach dg bad'
      fatal_and_tolerated_conditions [where s = ?u and i = 2 and td = ?td and pre = "[3]"
        and g = 4 and post = "[]" and pred = drops_kind_6 and st = st and ginst = ?g,
        THEN conjunct2, THEN conjunct1]
    by (simp add: mk_inst_def)
  have c: "AreDecorationsTheSame (mk_inst SpvOpDecorationGroup [])
             (mk_inst SpvOpDecorationGroup []) True = False"
    using fatal_and_tolerated_conditions [where ?inst1.0 = "mk_inst SpvOpDecorationGroup []"
        and ?inst2.0 = "mk_inst SpvOpDecorationGroup []" and ignore_target = True,
        THEN conjunct2, THEN conjunct2, THEN conjunct1]
    by (simp add: mk_inst_def)
  have d: "WhileEachDecoration ?v 5 5 (\<lambda>inst n. (True, Suc n)) (0::nat)
             = Inl AssertionFailure"
    using g5 w1 d2
      fatal_and_tolerated_conditions [where s = ?v and i = 5 and hs = "[0]" and h = 2
        and hs' = "[]" and decoration = 5 and f = "\<lambda>inst n. (True, Suc n)" and a = "0::nat"
        and a' = 1 and inst = ?d,
        THEN conjunct2, THEN conjunct2, THEN conjunct2, THEN conjunct1]
    by simp
  have e: "ForEachDecoration ?v 5 5 (\<lambda>inst n. Suc n) (0::nat) = Inl AssertionFailure"
    using g5 w1 d2
      fatal_and_tolerated_conditions [where s = ?v and i = 5 and hs = "[0]" and h = 2
        and hs' = "[]" and decoration = 5 and f' = "\<lambda>inst n. Suc n" and a = "0::nat"
        and a'' = 1 and inst = ?d,
        THEN conjunct2, THEN conjunct2, THEN conjunct2, THEN conjunct2, THEN conjunct1]
    by simp
  have f: "RemoveDecoration 2 example_state = Inr example_state"
    using d2' fatal_and_tolerated_conditions [where s = example_state and h = 2 and inst = ?d,
        THEN conjunct2, THEN conjunct2, THEN conjunct2, THEN conjunct2, THEN conjunct2]
    by simp
  show ?thesis
    using bad a b c d e f g5 by simp
qed

section \<open>Keys of the index and empty records\<close>

lemma fold_e_invariant:
  assumes "fold_e f xs s = Inr s'" and "P s"
    and "\<And>x a b. x \<in> set xs \<Longrightarrow> P a \<Longrightarrow> f x a = Inr b \<Longrightarrow> P b"
  shows "P s'"
  using assms
proof (induction xs arbitrary: s)
  case Nil
  then show ?case by simp
next
  case (Cons x xs)
  from Cons.prems(1) obtain a where a: "f x s = Inr a" and r: "fold_e f xs a = Inr s'"
    by (auto simp: bind_e_eq_Inr)
  have "P a" using Cons.prems(2) a Cons.prems(3) [of x s a] by simp
  moreover have "\<And>y a b. y \<in> set xs \<Longrightarrow> P a \<Longrightarrow> f y a = Inr b \<Longrightarrow> P b"
    using Cons.prems(3) by (meson list.set_intros(2))
  ultimately show ?case using Cons.IH [OF r] by blast
qed






lemma dom_remove [simp]:
  "dom (id_to_decoration_insts (remove_direct h i s)) = dom (id_to_decoration_insts s)"
  "dom (id_to_decoration_insts (remove_indirect h i s)) = dom (id_to_decoration_insts s)"
  "dom (id_to_decoration_insts (remove_decorate_inst h i s)) = dom (id_to_decoration_insts s)"
  by (auto simp: remove_direct_def remove_indirect_def remove_decorate_inst_def
        set_target_data_def split: option.splits)




lemma insts_index_ops [simp]:
  "insts (set_target_data i td s) = insts s"
  "insts (push_direct i h s) = insts s"
  "insts (push_indirect i h s) = insts s"
  "insts (push_decorate_inst i h s) = insts s"
  "insts (remove_direct h i s) = insts s"
  "insts (remove_indirect h i s) = insts s"
  "insts (remove_decorate_inst h i s) = insts s"
  "insts (erase_record i s) = insts s"
  "insts (log_event ev s) = insts s"
  by (simp_all add: set_target_data_def push_direct_def push_indirect_def
        push_decorate_inst_def remove_direct_def remove_indirect_def remove_decorate_inst_def
        erase_record_def log_event_def split: option.splits)







lemma nonempty_outside_mono: "nonempty_outside K s \<Longrightarrow> K \<subseteq> L \<Longrightarrow> nonempty_outside L s"
  by (auto simp: nonempty_outside_def)



lemma nonempty_outside_index_cong:
  "id_to_decoration_insts s' = id_to_decoration_insts s
     \<Longrightarrow> nonempty_outside K s' = nonempty_outside K s"
  by (simp add: nonempty_outside_def)




















section \<open>Notifications around operand edits\<close>

lemma uses_log_index_ops [simp]:
  "uses_log (set_target_data i td s) = uses_log s"
  "uses_log (push_direct i h s) = uses_log s"
  "uses_log (push_indirect i h s) = uses_log s"
  "uses_log (push_decorate_inst i h s) = uses_log s"
  "uses_log (remove_direct h i s) = uses_log s"
  "uses_log (remove_indirect h i s) = uses_log s"
  "uses_log (remove_decorate_inst h i s) = uses_log s"
  "uses_log (store_inst h inst s) = uses_log s"
  "uses_log (erase_record i s) = uses_log s"
  "uses_log (log_event ev s) = uses_log s @ [ev]"
  by (simp_all add: set_target_data_def push_direct_def push_indirect_def
        push_decorate_inst_def remove_direct_def remove_indirect_def remove_decorate_inst_def
        store_inst_def erase_record_def log_event_def split: option.splits)

lemma uses_log_AddDecoration:
  assumes "AddDecoration h s = Inr s'"
  shows "uses_log s' = uses_log s"
proof -
  from assms obtain inst where d: "deref s h = Inr inst"
    by (auto simp: AddDecoration_def bind_e_eq_Inr)
  have loop: "uses_log b = uses_log s"
    if "fold_e (\<lambda>i s'. bind_e (GetSingleWordInOperand inst i)
                          (\<lambda>target_id. Inr (push_indirect target_id h s'))) ks s = Inr b"
    for ks b
    using that
    by (rule fold_e_invariant [where P = "\<lambda>a. uses_log a = uses_log s"])
       (auto simp: bind_e_eq_Inr)
  show ?thesis
    using assms d
    by (cases "opcode inst") (auto simp: AddDecoration_def bind_e_eq_Inr dest!: loop)
qed

lemma uses_log_RemoveDecoration:
  assumes "RemoveDecoration h s = Inr s'"
  shows "uses_log s' = uses_log s"
proof -
  from assms obtain inst where d: "deref s h = Inr inst"
    by (auto simp: RemoveDecoration_def bind_e_eq_Inr)
  have loop: "uses_log b = uses_log s"
    if "fold_e (\<lambda>i s'. bind_e (GetSingleWordInOperand inst i)
                          (\<lambda>target_id. Inr (remove_indirect h target_id s'))) ks s = Inr b"
    for ks b
    using that
    by (rule fold_e_invariant [where P = "\<lambda>a. uses_log a = uses_log s"])
       (auto simp: bind_e_eq_Inr)
  show ?thesis
    using assms d
    by (cases "opcode inst")
       (auto simp: RemoveDecoration_def RemoveDecoration_group_def bind_e_eq_Inr dest!: loop)
qed

lemma uses_log_ForgetUses:
  "ForgetUses h s = Inr s' \<Longrightarrow> uses_log s' = uses_log s @ [ForgetUsesEv h]"
  by (auto simp: ForgetUses_def dest!: uses_log_RemoveDecoration)

lemma uses_log_AnalyzeUses:
  "AnalyzeUses h s = Inr s' \<Longrightarrow> uses_log s' = uses_log s @ [AnalyzeUsesEv h]"
  by (auto simp: AnalyzeUses_def dest!: uses_log_AddDecoration)

lemma uses_log_KillInst:
  "KillInst h s = Inr s' \<Longrightarrow> uses_log s' = uses_log s @ [KillInstEv h]"
  by (auto simp: KillInst_def bind_e_eq_Inr dest!: uses_log_RemoveDecoration)

lemma uses_log_clone_decoration:
  "clone_decoration target h s = Inr s'
     \<Longrightarrow> uses_log s' = uses_log s @ [AnalyzeUsesEv (length (insts s))]"
  by (auto simp: clone_decoration_def AddAnnotationInst_def bind_e_eq_Inr
        dest!: uses_log_AnalyzeUses)

lemma uses_log_add_operand_at:
  "add_operand_at h operand s = Inr s' \<Longrightarrow> uses_log s' = uses_log s @ [OperandEditEv h]"
  by (auto simp: add_operand_at_def bind_e_eq_Inr)

lemma uses_log_clone_member_pair:
  assumes "clone_member_pair from to h i s = Inr s'"
  shows "\<exists>n. uses_log s' = uses_log s @ replicate n (OperandEditEv h)"
proof -
  from assms obtain inst operand where d: "deref s h = Inr inst"
    and g: "GetInOperand inst i = Inr operand"
    by (auto simp: clone_member_pair_def bind_e_eq_Inr)
  from assms d g obtain w ws where w: "words operand = w # ws"
    by (cases "words operand") (auto simp: clone_member_pair_def)
  show ?thesis
  proof (cases "w = from")
    case False
    with assms d g w have "s' = s" by (simp add: clone_member_pair_def)
    then show ?thesis by (intro exI [of _ 0]) simp
  next
    case True
    with assms d g w obtain s1 literal where
      "add_operand_at h (Operand SPV_OPERAND_TYPE_ID [to]) s = Inr s1"
      "add_operand_at h literal s1 = Inr s'"
      by (auto simp: clone_member_pair_def bind_e_eq_Inr)
    then have "uses_log s' = uses_log s @ replicate 2 (OperandEditEv h)"
      by (auto dest!: uses_log_add_operand_at simp: numeral_2_eq_2)
    then show ?thesis by blast
  qed
qed

lemma uses_log_clone_member_pairs:
  "fold_e (clone_member_pair from to h) ks s = Inr s'
     \<Longrightarrow> \<exists>n. uses_log s' = uses_log s @ replicate n (OperandEditEv h)"
proof (induction ks arbitrary: s)
  case Nil
  then show ?case by (intro exI [of _ 0]) simp
next
  case (Cons k ks)
  from Cons.prems obtain a where a: "clone_member_pair from to h k s = Inr a"
    and r: "fold_e (clone_member_pair from to h) ks a = Inr s'"
    by (auto simp: bind_e_eq_Inr)
  from uses_log_clone_member_pair [OF a] obtain n where
    n: "uses_log a = uses_log s @ replicate n (OperandEditEv h)" by blast
  from Cons.IH [OF r] obtain m where
    m: "uses_log s' = uses_log a @ replicate m (OperandEditEv h)" by blast
  have "uses_log s' = uses_log s @ replicate (n + m) (OperandEditEv h)"
    by (simp add: n m replicate_add)
  then show ?case by blast
qed

lemma bracket_edits: "foldl bracket_step (Inside h) (replicate n (OperandEditEv h)) = Inside h"
  by (induction n) simp_all

lemma bracketed_bracket:
  "bracketed ([ForgetUsesEv h] @ replicate n (OperandEditEv h) @ [AnalyzeUsesEv h])"
  by (simp add: bracketed_def bracket_edits)

lemma bracketed_append: "bracketed a \<Longrightarrow> bracketed b \<Longrightarrow> bracketed (a @ b)"
  by (simp add: bracketed_def)

lemma uses_log_clone_indirect:
  assumes "clone_indirect from to h s = Inr s'"
  shows "\<exists>evs. uses_log s' = uses_log s @ evs \<and> bracketed evs"
proof -
  from assms obtain inst where d: "deref s h = Inr inst"
    by (auto simp: clone_indirect_def bind_e_eq_Inr)
  have "\<exists>n. uses_log s' =
      uses_log s @ [ForgetUsesEv h] @ replicate n (OperandEditEv h) @ [AnalyzeUsesEv h]"
  proof (cases "opcode inst = SpvOpGroupDecorate")
    case True
    with assms d obtain s1 s2 where "ForgetUses h s = Inr s1"
      "add_operand_at h (Operand SPV_OPERAND_TYPE_ID [to]) s1 = Inr s2"
      "AnalyzeUses h s2 = Inr s'"
      by (auto simp: clone_indirect_def bind_e_eq_Inr)
    then have "uses_log s' =
        uses_log s @ [ForgetUsesEv h] @ replicate 1 (OperandEditEv h) @ [AnalyzeUsesEv h]"
      by (auto dest!: uses_log_ForgetUses uses_log_add_operand_at uses_log_AnalyzeUses)
    then show ?thesis by blast
  next
    case False
    with assms d have m: "opcode inst = SpvOpGroupMemberDecorate"
      by (cases "opcode inst") (auto simp: clone_indirect_def)
    with assms d obtain s1 s2 where "ForgetUses h s = Inr s1"
      "fold_e (clone_member_pair from to h) (loop_indices 1 2 (NumInOperands inst)) s1 = Inr s2"
      "AnalyzeUses h s2 = Inr s'"
      by (auto simp: clone_indirect_def bind_e_eq_Inr)
    then show ?thesis
      by (auto dest!: uses_log_ForgetUses uses_log_clone_member_pairs uses_log_AnalyzeUses)
  qed
  then show ?thesis using bracketed_bracket by blast
qed

lemma uses_log_CloneDecorations:
  assumes "CloneDecorations s from to = Inr s'"
  shows "\<exists>evs. uses_log s' = uses_log s @ evs \<and> bracketed evs"
proof (cases "id_to_decoration_insts s from")
  case None
  with assms have "s' = s" by (simp add: CloneDecorations_def)
  then show ?thesis by (simp add: bracketed_def)
next
  case (Some info)
  let ?P = "\<lambda>a. \<exists>evs. uses_log a = uses_log s @ evs \<and> bracketed evs"
  from assms Some obtain s1 where
    one: "fold_e (clone_decoration to) (direct_decorations info) s = Inr s1"
    and two: "fold_e (clone_indirect from to) (indirect_decorations (target_data s1 from)) s1
       = Inr s'"
    by (auto simp: CloneDecorations_def bind_e_eq_Inr split: if_splits)
  have "?P s" by (simp add: bracketed_def)
  with one have "?P s1"
  proof (rule fold_e_invariant)
    fix x a b
    assume "?P a" and "clone_decoration to x a = Inr b"
    then show "?P b"
      by (auto dest!: uses_log_clone_decoration simp: bracketed_def)
  qed
  with two show "?P s'"
  proof (rule fold_e_invariant)
    fix x a b
    assume "?P a" and "clone_indirect from to x a = Inr b"
    then show "?P b"
      by (auto dest!: uses_log_clone_indirect intro: bracketed_append)
  qed
qed

lemma scheduled_cases:
  "scheduled st K \<Longrightarrow>
     (\<exists>P. st = (Quiet, P) \<and> P \<subseteq> K) \<or> (\<exists>g P. st = (JustEdited g, P) \<and> insert g P \<subseteq> K)"
  by (cases st, cases "fst st") (auto simp: scheduled_def)

lemma tracks_I:
  assumes "\<And>P. P \<subseteq> K \<Longrightarrow> scheduled (foldl edit_step (Quiet, P) evs) K'"
    and "\<And>g P. insert g P \<subseteq> K \<Longrightarrow> scheduled (foldl edit_step (JustEdited g, P) evs) K'"
  shows "tracks evs K K'"
  unfolding tracks_def
proof (intro allI impI)
  fix st
  assume "scheduled st K"
  from scheduled_cases [OF this] show "scheduled (foldl edit_step st evs) K'"
    using assms by blast
qed

lemma tracks_Nil: "K \<subseteq> K' \<Longrightarrow> tracks [] K K'"
  by (rule tracks_I) (auto simp: scheduled_def)

lemma tracks_append: "tracks a K K1 \<Longrightarrow> tracks b K1 K2 \<Longrightarrow> tracks (a @ b) K K2"
  unfolding tracks_def by (metis foldl_append)

lemma tracks_AnalyzeUsesEv: "tracks [AnalyzeUsesEv h] K K"
  by (rule tracks_I) (auto simp: scheduled_def)

lemma tracks_KillInstEv: "tracks [KillInstEv h] K (K - {h})"
  by (rule tracks_I) (auto simp: scheduled_def)

lemma tracks_OperandEditEv: "tracks [OperandEditEv h] K (insert h K)"
  by (rule tracks_I) (auto simp: scheduled_def)

lemma tracks_refresh: "tracks [OperandEditEv h, ForgetUsesEv h, AnalyzeUsesEv h] K K"
  by (rule tracks_I) (auto simp: scheduled_def)

lemma tracks_notified_or_deleted: "tracks evs {} {} \<Longrightarrow> notified_or_deleted evs"
proof -
  assume t: "tracks evs {} {}"
  have "scheduled (Quiet, {}) {}" by (simp add: scheduled_def)
  with t have "scheduled (foldl edit_step (Quiet, {}) evs) {}" by (simp add: tracks_def)
  then show ?thesis
    by (auto simp: notified_or_deleted_def dest!: scheduled_cases)
qed

lemma tracked_refl: "K \<subseteq> K' \<Longrightarrow> tracked s K s K'"
  by (simp add: tracked_def tracks_Nil)

lemma tracked_trans: "tracked s K a K1 \<Longrightarrow> tracked a K1 b K2 \<Longrightarrow> tracked s K b K2"
  by (auto simp: tracked_def intro: tracks_append)

lemma tracked_same_log: "uses_log s' = uses_log s \<Longrightarrow> K \<subseteq> K' \<Longrightarrow> tracked s K s' K'"
  by (simp add: tracked_def tracks_Nil)

lemma tracked_KillInst: "KillInst h s = Inr s' \<Longrightarrow> tracked s K s' (K - {h})"
  by (auto simp: tracked_def tracks_KillInstEv dest!: uses_log_KillInst)

lemma tracked_clone_decoration: "clone_decoration i h s = Inr s' \<Longrightarrow> tracked s K s' K"
  by (auto simp: tracked_def tracks_AnalyzeUsesEv dest!: uses_log_clone_decoration)

lemma tracked_fold:
  assumes "fold_e f xs a = Inr b" and "tracked s K a K1"
    and "\<And>x c d. f x c = Inr d \<Longrightarrow> tracked c K1 d K1"
  shows "tracked s K b K1"
  using assms(1,2)
  by (rule fold_e_invariant) (blast intro: tracked_trans assms(3))

lemma tracked_kills:
  "fold_e KillInst ks a = Inr b \<Longrightarrow> tracked a K b (K - set ks)"
proof (induction ks arbitrary: a K)
  case Nil
  then show ?case by (simp add: tracked_refl)
next
  case (Cons k ks)
  from Cons.prems obtain c where c: "KillInst k a = Inr c"
    and r: "fold_e KillInst ks c = Inr b"
    by (auto simp: bind_e_eq_Inr)
  have "K - {k} - set ks = K - set (k # ks)" by auto
  with tracked_trans [OF tracked_KillInst [OF c, of K] Cons.IH [OF r, of "K - {k}"]]
  show ?case by simp
qed

lemma tracked_retire_or_refresh:
  assumes "retire_or_refresh h inst ops was_modified (s, kill, rem) = Inr (s', kill', rem')"
  shows "tracked s (set kill) s' (set kill')"
proof (cases "length ops = 1")
  case True
  with assms have s': "s' = (if was_modified
                    then log_event (OperandEditEv h) (store_inst h (inst\<lparr>in_operands := ops\<rparr>) s)
                    else s)"
    and k: "kill' = kill @ [h]"
    by (simp_all add: retire_or_refresh_def)
  show ?thesis
  proof (cases was_modified)
    case True
    with s' have "uses_log s' = uses_log s @ [OperandEditEv h]"
      by (simp add: log_event_def store_inst_def)
    then show ?thesis
      using tracks_OperandEditEv [of h "set kill"] by (auto simp: tracked_def k)
  next
    case False
    with s' show ?thesis by (auto simp: k intro: tracked_refl)
  qed
next
  case False
  show ?thesis
  proof (cases was_modified)
    case True
    with assms False obtain s1 where
      "ForgetUses h (log_event (OperandEditEv h)
         (store_inst h (inst\<lparr>in_operands := ops\<rparr>) s)) = Inr s1"
      "AnalyzeUses h s1 = Inr s'" and k: "kill' = kill"
      by (auto simp: retire_or_refresh_def bind_e_eq_Inr)
    then have "uses_log s' =
        uses_log s @ [OperandEditEv h, ForgetUsesEv h, AnalyzeUsesEv h]"
      by (auto dest!: uses_log_ForgetUses uses_log_AnalyzeUses
            simp: log_event_def store_inst_def)
    then show ?thesis
      using tracks_refresh [of h "set kill"] by (auto simp: tracked_def k)
  next
    case nm: False
    with assms False show ?thesis by (simp add: retire_or_refresh_def tracked_refl)
  qed
qed

lemma tracked_detach_from_group:
  assumes "detach_from_group i h inst keep (s, kill, rem) = Inr (s', kill', rem')"
  shows "tracked s (set kill) s' (set kill')"
proof -
  from assms obtain ops was_modified s3 where
    "retire_or_refresh h inst ops was_modified (s, kill, rem) = Inr (s3, kill', rem')"
    and clones: "fold_e (clone_decoration i) keep s3 = Inr s'"
    by (auto simp: detach_from_group_def bind_e_eq_Inr)
  then have "tracked s (set kill) s3 (set kill')"
    by (blast dest: tracked_retire_or_refresh)
  with clones show ?thesis
    by (rule tracked_fold) (rule tracked_clone_decoration)
qed

lemma tracked_remove_group_step:
  assumes "remove_group_step i pred h (s, kill, rem) = Inr (s', kill', rem')"
  shows "tracked s (set kill) s' (set kill')"
proof -
  from assms obtain inst keep where
    "(s', kill', rem') = (s, kill, rem) \<or>
     detach_from_group i h inst keep (s, kill, rem) = Inr (s', kill', rem')"
    by (auto simp: remove_group_step_def bind_e_eq_Inr split: if_splits option.splits)
  then show ?thesis
    by (auto simp: tracked_refl dest: tracked_detach_from_group)
qed

lemma tracked_prune_record:
  assumes "prune_record i g s = Inr s'"
  shows "tracked s {} s' {}"
proof -
  have e: "tracked s {} (erase_record i s) {}"
    by (simp add: tracked_same_log erase_record_def)
  from assms have "s' = s \<or> s' = erase_record i s \<or> (\<exists>d. KillInst d (erase_record i s) = Inr s')"
    by (auto simp: prune_record_def split: if_splits option.splits)
  then show ?thesis
    using e tracked_KillInst [of _ "erase_record i s" s' "{}"]
    by (auto simp: tracked_refl intro: tracked_trans)
qed

lemma tracked_RemoveDecorationsFrom:
  assumes "RemoveDecorationsFrom s i pred = Inr s'"
  shows "tracked s {} s' {}"
proof (cases "id_to_decoration_insts s i")
  case None
  with assms show ?thesis by (simp add: RemoveDecorationsFrom_def tracked_refl)
next
  case (Some info)
  from assms Some have m: "has_module s"
    by (auto simp: RemoveDecorationsFrom_def split: if_splits)
  from assms Some m obtain kill s1 kill1 rem s2 s3 where
    groups: "fold_e (remove_group_step i pred) (indirect_decorations info) (s, kill, {})
        = Inr (s1, kill1, rem)"
    and kills: "fold_e KillInst kill1
                    (set_target_data i
                       ((target_data s1 i)\<lparr>indirect_decorations :=
                           filter (\<lambda>h. h \<notin> rem) (indirect_decorations (target_data s1 i))\<rparr>) s1)
        = Inr s2"
    and kills2: "fold_e KillInst
                    (if decorate_insts info \<noteq> [] \<and>
                        direct_decorations (target_data s2 i) = [] \<and>
                        indirect_decorations (target_data s2 i) = []
                     then decorate_insts (target_data s2 i) else [])
                    s2 = Inr s3"
    and prune: "prune_record i (decorate_insts info \<noteq> []) s3 = Inr s'"
    by (auto simp: RemoveDecorationsFrom_def bind_e_eq_Inr)
  let ?P = "\<lambda>st. tracked s {} (fst st) (set (fst (snd st)))"
  have "?P (s, kill, {})" by (simp add: tracked_refl)
  with groups have "?P (s1, kill1, rem)"
  proof (rule fold_e_invariant)
    fix x a b
    assume "?P a" and "remove_group_step i pred x a = Inr b"
    then show "?P b"
      using tracked_remove_group_step [of i pred x "fst a" "fst (snd a)" "snd (snd a)"
          "fst b" "fst (snd b)" "snd (snd b)"]
      by (auto intro: tracked_trans)
  qed
  then have "tracked s {} (set_target_data i
                       ((target_data s1 i)\<lparr>indirect_decorations :=
                           filter (\<lambda>h. h \<notin> rem) (indirect_decorations (target_data s1 i))\<rparr>) s1)
                (set kill1)"
    by (simp add: tracked_def set_target_data_def)
  from tracked_trans [OF this tracked_kills [OF kills, of "set kill1"]]
  have "tracked s {} s2 {}" by simp
  from tracked_trans [OF this tracked_kills [OF kills2, of "{}"]]
  have "tracked s {} s3 {}" by simp
  with prune show ?thesis
    by (blast intro: tracked_trans tracked_prune_record)
qed

lemma retire_or_refresh_modified:
  assumes "retire_or_refresh h inst ops True (s, kill, rem) = Inr (s3, kill', rem')"
  shows "uses_log s3 =
           uses_log s @ (if length ops = 1 then [OperandEditEv h]
                         else [OperandEditEv h, ForgetUsesEv h, AnalyzeUsesEv h])"
    and "kill' = (if length ops = 1 then kill @ [h] else kill)"
proof -
  show "kill' = (if length ops = 1 then kill @ [h] else kill)"
    using assms by (auto simp: retire_or_refresh_def bind_e_eq_Inr split: if_splits)
  show "uses_log s3 =
           uses_log s @ (if length ops = 1 then [OperandEditEv h]
                         else [OperandEditEv h, ForgetUsesEv h, AnalyzeUsesEv h])"
  proof (cases "length ops = 1")
    case True
    with assms show ?thesis
      by (auto simp: retire_or_refresh_def log_event_def store_inst_def)
  next
    case False
    with assms obtain s1 where
      "ForgetUses h (log_event (OperandEditEv h)
         (store_inst h (inst\<lparr>in_operands := ops\<rparr>) s)) = Inr s1"
      "AnalyzeUses h s1 = Inr s3"
      by (auto simp: retire_or_refresh_def bind_e_eq_Inr)
    then show ?thesis
      using False
      by (auto dest!: uses_log_ForgetUses uses_log_AnalyzeUses
            simp: log_event_def store_inst_def)
  qed
qed

text \<open>
  C2, as the code has it: in \<open>CloneDecorations\<close> every edit of a group-apply
  instruction's operand list stands between the \<open>ForgetUses\<close> of that instruction and
  the next \<open>AnalyzeUses\<close> of it, with nothing else in between. In
  \<open>RemoveDecorationsFrom\<close> the operand list is compacted first: every edit is
  followed at once by the \<open>ForgetUses\<close> and then the \<open>AnalyzeUses\<close> of the edited
  instruction, or the instruction is deleted (\<open>KillInst\<close>) before the call returns;
  and \<open>ForgetUses\<close> is called only right after an edit of its instruction, with the
  \<open>AnalyzeUses\<close> of that instruction next. Lines 86 to 95 decide which: a compacted
  instruction that keeps a target is notified at once, one left with its group operand
  only is scheduled for deletion and not notified.
\<close>

theorem notifications_around_operand_edits:
  "(CloneDecorations s from to = Inr s'
      \<longrightarrow> extends_log s s' \<and> bracketed (new_events s s')) \<and>
   (RemoveDecorationsFrom s i pred = Inr s''
      \<longrightarrow> extends_log s s'' \<and> notified_or_deleted (new_events s s'')) \<and>
   (retire_or_refresh h inst ops True (s, kill, rem) = Inr (s3, kill', rem')
      \<longrightarrow> extends_log s s3 \<and>
          new_events s s3 =
            (if length ops = 1 then [OperandEditEv h]
             else [OperandEditEv h, ForgetUsesEv h, AnalyzeUsesEv h]) \<and>
          kill' = (if length ops = 1 then kill @ [h] else kill))"
proof (intro conjI impI)
  assume "CloneDecorations s from to = Inr s'"
  from uses_log_CloneDecorations [OF this] obtain evs where
    "uses_log s' = uses_log s @ evs" "bracketed evs" by blast
  then show "extends_log s s'" "bracketed (new_events s s')"
    by (simp_all add: extends_log_def new_events_def)
next
  assume "RemoveDecorationsFrom s i pred = Inr s''"
  from tracked_RemoveDecorationsFrom [OF this] obtain evs where
    "uses_log s'' = uses_log s @ evs" "tracks evs {} {}"
    by (auto simp: tracked_def)
  then show "extends_log s s''" "notified_or_deleted (new_events s s'')"
    by (simp_all add: extends_log_def new_events_def tracks_notified_or_deleted)
next
  assume r: "retire_or_refresh h inst ops True (s, kill, rem) = Inr (s3, kill', rem')"
  from retire_or_refresh_modified [OF r]
  show "extends_log s s3"
    "new_events s s3 =
       (if length ops = 1 then [OperandEditEv h]
        else [OperandEditEv h, ForgetUsesEv h, AnalyzeUsesEv h])"
    "kill' = (if length ops = 1 then kill @ [h] else kill)"
    by (simp_all add: extends_log_def new_events_def)
qed

text \<open>
  Removing the decoration of kind 6 from id 2 of the example: the operand list of the
  group-apply instruction 3 is edited before \<open>ForgetUses\<close> is called on it.
\<close>

theorem notifications_counterexample:
  "\<exists>s'. RemoveDecorationsFrom example_state 2 drops_kind_6 = Inr s' \<and>
        new_events example_state s' =
          [OperandEditEv 3, ForgetUsesEv 3, AnalyzeUsesEv 3, AnalyzeUsesEv 4] \<and>
        \<not> bracketed (new_events example_state s')"
proof -
  have "\<exists>s'. RemoveDecorationsFrom example_state 2 drops_kind_6 = Inr s' \<and>
        new_events example_state s' =
          [OperandEditEv 3, ForgetUsesEv 3, AnalyzeUsesEv 3, AnalyzeUsesEv 4]"
    by (simp add: edit_defs example_defs access_defs index_defs drops_kind_6_def
          new_events_def)
  then show ?thesis by (auto simp: bracketed_def)
qed

theorem notifications_around_operand_edits_witness:
  "(\<exists>s'. CloneDecorations example_state 2 7 = Inr s' \<and>
         new_events example_state s' = [ForgetUsesEv 3, OperandEditEv 3, AnalyzeUsesEv 3] \<and>
         extends_log example_state s' \<and> bracketed (new_events example_state s')) \<and>
   (\<exists>s''. RemoveDecorationsFrom example_state 2 drops_kind_6 = Inr s'' \<and>
         new_events example_state s'' =
           [OperandEditEv 3, ForgetUsesEv 3, AnalyzeUsesEv 3, AnalyzeUsesEv 4] \<and>
         extends_log example_state s'' \<and> notified_or_deleted (new_events example_state s'')) \<and>
   (\<exists>s''. RemoveDecorationsFrom single_target_state 2 always_true = Inr s'' \<and>
         new_events single_target_state s'' = [OperandEditEv 2, KillInstEv 2] \<and>
         extends_log single_target_state s'' \<and>
         notified_or_deleted (new_events single_target_state s'')) \<and>
   (\<exists>s3. retire_or_refresh 3
            (mk_inst SpvOpGroupDecorate
               [Operand SPV_OPERAND_TYPE_ID [1], Operand SPV_OPERAND_TYPE_ID [2],
                Operand SPV_OPERAND_TYPE_ID [3]])
            [Operand SPV_OPERAND_TYPE_ID [1], Operand SPV_OPERAND_TYPE_ID [3]] True
            (example_state, [], {}) = Inr (s3, [], {3}) \<and>
         new_events example_state s3 = [OperandEditEv 3, ForgetUsesEv 3, AnalyzeUsesEv 3]) \<and>
   \<not> notified_or_deleted [OperandEditEv 3] \<and>
   \<not> notified_or_deleted [OperandEditEv 3, AnalyzeUsesEv 4] \<and>
   \<not> notified_or_deleted [ForgetUsesEv 3, OperandEditEv 3, AnalyzeUsesEv 3]"
proof -
  let ?g = "mk_inst SpvOpGroupDecorate
               [Operand SPV_OPERAND_TYPE_ID [1], Operand SPV_OPERAND_TYPE_ID [2],
                Operand SPV_OPERAND_TYPE_ID [3]]"
  let ?ops = "[Operand SPV_OPERAND_TYPE_ID [1], Operand SPV_OPERAND_TYPE_ID [3]]"
  obtain s' where c: "CloneDecorations example_state 2 7 = Inr s'"
    and n: "new_events example_state s' = [ForgetUsesEv 3, OperandEditEv 3, AnalyzeUsesEv 3]"
  proof -
    have "\<exists>s'. CloneDecorations example_state 2 7 = Inr s' \<and>
        new_events example_state s' = [ForgetUsesEv 3, OperandEditEv 3, AnalyzeUsesEv 3]"
      by (simp add: edit_defs example_defs access_defs index_defs new_events_def)
    then show ?thesis using that by blast
  qed
  obtain s'' where r: "RemoveDecorationsFrom example_state 2 drops_kind_6 = Inr s''"
    and rn: "new_events example_state s'' =
           [OperandEditEv 3, ForgetUsesEv 3, AnalyzeUsesEv 3, AnalyzeUsesEv 4]"
  proof -
    have "\<exists>s''. RemoveDecorationsFrom example_state 2 drops_kind_6 = Inr s'' \<and>
        new_events example_state s'' =
           [OperandEditEv 3, ForgetUsesEv 3, AnalyzeUsesEv 3, AnalyzeUsesEv 4]"
      by (simp add: edit_defs example_defs access_defs index_defs drops_kind_6_def
            new_events_def)
    then show ?thesis using that by blast
  qed
  obtain t where k: "RemoveDecorationsFrom single_target_state 2 always_true = Inr t"
    and kn: "new_events single_target_state t = [OperandEditEv 2, KillInstEv 2]"
  proof -
    have "\<exists>t. RemoveDecorationsFrom single_target_state 2 always_true = Inr t \<and>
        new_events single_target_state t = [OperandEditEv 2, KillInstEv 2]"
      by (simp add: edit_defs single_target_state_def mk_inst_def access_defs index_defs
            always_true_def new_events_def)
    then show ?thesis using that by blast
  qed
  obtain u where q: "retire_or_refresh 3 ?g ?ops True (example_state, [], {}) = Inr (u, [], {3})"
  proof -
    have "\<exists>u. retire_or_refresh 3 ?g ?ops True (example_state, [], {}) = Inr (u, [], {3})"
      by (simp add: edit_defs example_defs access_defs index_defs)
    then show ?thesis using that by blast
  qed
  have neg: "\<not> notified_or_deleted [OperandEditEv 3]"
    "\<not> notified_or_deleted [OperandEditEv 3, AnalyzeUsesEv 4]"
    "\<not> notified_or_deleted [ForgetUsesEv 3, OperandEditEv 3, AnalyzeUsesEv 3]"
    by (simp_all add: notified_or_deleted_def)
  have one: "extends_log example_state s' \<and> bracketed (new_events example_state s')"
    using c notifications_around_operand_edits
      [where s = example_state and ?from = 2 and to = 7 and s' = s', THEN conjunct1]
    by simp
  have two: "extends_log example_state s'' \<and>
      notified_or_deleted (new_events example_state s'')"
    using r notifications_around_operand_edits
      [where s = example_state and i = 2 and pred = drops_kind_6 and s'' = s'',
        THEN conjunct2, THEN conjunct1]
    by simp
  have three: "extends_log single_target_state t \<and>
      notified_or_deleted (new_events single_target_state t)"
    using k notifications_around_operand_edits
      [where s = single_target_state and i = 2 and pred = always_true and s'' = t,
        THEN conjunct2, THEN conjunct1]
    by simp
  have four: "new_events example_state u = [OperandEditEv 3, ForgetUsesEv 3, AnalyzeUsesEv 3]"
    using q notifications_around_operand_edits
      [where s = example_state and h = 3 and inst = ?g and ops = ?ops and kill = "[]"
         and rem = "{}" and ?s3.0 = u and kill' = "[]" and rem' = "{3}",
        THEN conjunct2, THEN conjunct2]
    by simp
  show ?thesis
    using c n r rn k kn q neg one two three four by blast
qed

section \<open>Removing decorations that come through a group\<close>

lemma decorates_shape:
  assumes "decorates G d"
  obtains op r t0 t1 w1 payload where
    "d = \<lparr>opcode = op, result_id = r,
          in_operands = Operand t0 [G] # Operand t1 [w1] # payload\<rparr>"
    "is_direct_form op"
proof -
  obtain op r ops where d: "d = \<lparr>opcode = op, result_id = r, in_operands = ops\<rparr>"
    by (cases d) simp
  from assms d obtain x y payload where ops: "ops = x # y # payload"
    and x: "words x = [G]" and y: "length (words y) = 1"
    by (auto simp: decorates_def split: list.splits)
  obtain t0 where "x = Operand t0 [G]" using x by (cases x) simp
  moreover obtain t1 w1 where "y = Operand t1 [w1]"
    using y by (cases y) (auto simp: length_Suc_conv)
  ultimately show ?thesis using that d ops assms by (simp add: decorates_def)
qed

lemma AddDecoration_by_form:
  "AddDecoration h s =
     bind_e (deref s h) (\<lambda>inst.
       if is_direct_form (opcode inst)
       then bind_e (GetSingleWordInOperand inst 0) (\<lambda>target_id. Inr (push_direct target_id h s))
       else if is_group_apply (opcode inst)
       then bind_e (fold_e (\<lambda>i s'. bind_e (GetSingleWordInOperand inst i)
                                  (\<lambda>target_id. Inr (push_indirect target_id h s')))
                     (if opcode inst = SpvOpGroupDecorate
                      then loop_indices 1 1 (NumInOperands inst)
                      else loop_indices 2 2 (NumInOperands inst)) s)
             (\<lambda>s'. bind_e (GetSingleWordInOperand inst 0)
                (\<lambda>target_id. Inr (push_decorate_inst target_id h s')))
       else Inr s)"
proof (cases "deref s h")
  case (Inl e)
  then show ?thesis by (simp add: AddDecoration_def)
next
  case (Inr inst)
  then show ?thesis by (cases "opcode inst") (simp_all add: AddDecoration_def)
qed

lemma RemoveDecoration_by_form:
  "RemoveDecoration h s =
     bind_e (deref s h) (\<lambda>inst.
       if is_direct_form (opcode inst)
       then bind_e (GetSingleWordInOperand inst 0) (\<lambda>target_id. Inr (remove_direct h target_id s))
       else if is_group_apply (opcode inst)
       then RemoveDecoration_group h inst (if opcode inst = SpvOpGroupDecorate then 1 else 2) s
       else Inr s)"
proof (cases "deref s h")
  case (Inl e)
  then show ?thesis by (simp add: RemoveDecoration_def)
next
  case (Inr inst)
  then show ?thesis by (cases "opcode inst") (simp_all add: RemoveDecoration_def)
qed

lemmas form_defs = RemoveDecorationsFrom_def remove_group_step_def detach_from_group_def
  retire_or_refresh_def prune_record_def CloneDecorations_def clone_indirect_def
  clone_member_pair_def add_operand_at_def clone_decoration_def KillInst_def GetDef_def
  ForgetUses_def AnalyzeUses_def AddDecoration_by_form RemoveDecoration_by_form
  RemoveDecoration_group_def AddAnnotationInst_def SetInOperand_def AddOperand_def
  store_inst_def log_event_def compact_target_def RemoveInOperand_def
  loop_indices.simps remove_id_loop.simps upt_rec

text \<open>
  C1: a group \<open>G\<close> with the decorations \<open>d1\<close> (kept by the predicate) and \<open>d2\<close>
  (dropped), applied by one \<^verbatim>\<open>OpGroupDecorate\<close> (instruction 3) to \<open>A\<close> and \<open>B\<close>.
  After \<open>RemoveDecorationsFrom\<close> on \<open>A\<close>, the lookup for \<open>A\<close> returns the new
  instruction 4 only, a copy of \<open>d1\<close> with target \<open>A\<close> held in the direct list of
  \<open>A\<close>, whose indirect list is empty; the operands of instruction 3 are \<open>G\<close> and
  \<open>B\<close>; and the lookup for \<open>B\<close> still returns \<open>d1\<close> and \<open>d2\<close> through
  instruction 3.
\<close>

theorem group_partial_removal:
  assumes "A \<noteq> B" and "A \<noteq> G" and "B \<noteq> G"
    and "decorates G d1" and "decorates G d2"
    and "\<not> pred d1" and "pred d2"
  shows "\<exists>s. AnalyzeDecorations (group_module G [A, B] [d1, d2]) = Inr s \<and>
     (\<exists>s'. RemoveDecorationsFrom s A pred = Inr s' \<and>
       GetDecorationsFor s' A True = Inr [4] \<and>
       deref s' 4 = SetInOperand 0 [A] d1 \<and>
       direct_decorations (target_data s' A) = [4] \<and>
       indirect_decorations (target_data s' A) = [] \<and>
       deref s' 3 = Inr (mk_inst SpvOpGroupDecorate
                 [Operand SPV_OPERAND_TYPE_ID [G], Operand SPV_OPERAND_TYPE_ID [B]]) \<and>
       indirect_decorations (target_data s' B) = [3] \<and>
       GetDecorationsFor s' B True = Inr [0, 1] \<and>
       deref s' 0 = Inr d1 \<and> deref s' 1 = Inr d2)"
proof -
  from assms(4) obtain op1 r1 t01 t11 w1 p1 where
    d1: "d1 = \<lparr>opcode = op1, result_id = r1,
          in_operands = Operand t01 [G] # Operand t11 [w1] # p1\<rparr>" and o1: "is_direct_form op1"
    by (rule decorates_shape)
  from assms(5) obtain op2 r2 t02 t12 w2 p2 where
    d2: "d2 = \<lparr>opcode = op2, result_id = r2,
          in_operands = Operand t02 [G] # Operand t12 [w2] # p2\<rparr>" and o2: "is_direct_form op2"
    by (rule decorates_shape)
  have p: "\<not> pred \<lparr>opcode = op1, result_id = r1,
          in_operands = Operand t01 [G] # Operand t11 [w1] # p1\<rparr>"
    "pred \<lparr>opcode = op2, result_id = r2,
          in_operands = Operand t02 [G] # Operand t12 [w2] # p2\<rparr>"
    using assms(6,7) by (simp_all add: d1 d2)
  show ?thesis
    using assms(1-3) o1 o2 p
    by (simp add: AnalyzeDecorations_def group_module_def d1 d2 form_defs access_defs
          mk_inst_def index_defs GetDecorationsFor_def process_direct_decorations_def)
qed

theorem group_partial_removal_witness:
  "(2::spv_id) \<noteq> 3 \<and> (2::spv_id) \<noteq> 1 \<and> (3::spv_id) \<noteq> 1 \<and>
   decorates 1 kind_5_of_group_1 \<and> decorates 1 kind_6_of_group_1 \<and>
   \<not> drops_kind_6 kind_5_of_group_1 \<and> drops_kind_6 kind_6_of_group_1 \<and>
   (\<exists>s. AnalyzeDecorations (group_module 1 [2, 3] [kind_5_of_group_1, kind_6_of_group_1])
          = Inr s \<and>
     (\<exists>s'. RemoveDecorationsFrom s 2 drops_kind_6 = Inr s' \<and>
       GetDecorationsFor s' 2 True = Inr [4] \<and>
       deref s' 4 = Inr (mk_inst SpvOpDecorate
           [Operand SPV_OPERAND_TYPE_ID [2], Operand SPV_OPERAND_TYPE_DECORATION [5]]) \<and>
       deref s' 3 = Inr (mk_inst SpvOpGroupDecorate
                 [Operand SPV_OPERAND_TYPE_ID [1], Operand SPV_OPERAND_TYPE_ID [3]]) \<and>
       GetDecorationsFor s' 3 True = Inr [0, 1]))"
proof -
  have d: "decorates 1 kind_5_of_group_1" "decorates 1 kind_6_of_group_1"
    by (simp_all add: decorates_def kind_5_of_group_1_def kind_6_of_group_1_def mk_inst_def)
  have p: "\<not> drops_kind_6 kind_5_of_group_1" "drops_kind_6 kind_6_of_group_1"
    by (simp_all add: drops_kind_6_def kind_5_of_group_1_def kind_6_of_group_1_def mk_inst_def
          access_defs)
  have c: "SetInOperand 0 [2] kind_5_of_group_1 = Inr (mk_inst SpvOpDecorate
           [Operand SPV_OPERAND_TYPE_ID [2], Operand SPV_OPERAND_TYPE_DECORATION [5]])"
    by (simp add: SetInOperand_def kind_5_of_group_1_def mk_inst_def NumInOperands_def)
  have n: "(2::spv_id) \<noteq> 3" "(2::spv_id) \<noteq> 1" "(3::spv_id) \<noteq> 1"
    by simp_all
  show ?thesis
    using d p n group_partial_removal [OF n d p] by (auto simp: c)
qed

section \<open>A group applied to a single target\<close>

text \<open>
  C4, as the code has it: a group \<open>G\<close> with the single decoration \<open>d\<close>, applied by
  one \<^verbatim>\<open>OpGroupDecorate\<close> (instruction 2) to \<open>A\<close> only. After
  \<open>RemoveDecorationsFrom\<close> on \<open>A\<close> with the predicate that is always true, the
  group-apply instruction is deleted and \<open>A\<close> has no record; the instruction
  defining \<open>G\<close> (instruction 1) and the decoration \<open>d\<close> stay in the module, and
  \<open>G\<close> keeps its record with \<open>d\<close> in the direct list.
\<close>

theorem group_emptying:
  assumes "A \<noteq> G" and "decorates G d"
  shows "\<exists>s. AnalyzeDecorations (group_module G [A] [d]) = Inr s \<and>
     (\<exists>s'. RemoveDecorationsFrom s A always_true = Inr s' \<and>
       deref s' 2 = Inl InvalidAccess \<and> 2 \<notin> set (annotations s') \<and>
       id_to_decoration_insts s' A = None \<and>
       deref s' 1 = Inr \<lparr>opcode = SpvOpDecorationGroup, result_id = G, in_operands = []\<rparr> \<and>
       deref s' 0 = Inr d \<and> annotations s' = [0, 1] \<and>
       id_to_decoration_insts s' G =
         Some \<lparr>direct_decorations = [0], indirect_decorations = [], decorate_insts = []\<rparr>)"
proof -
  from assms(2) obtain op1 r1 t01 t11 w1 p1 where
    d: "d = \<lparr>opcode = op1, result_id = r1,
          in_operands = Operand t01 [G] # Operand t11 [w1] # p1\<rparr>" and o1: "is_direct_form op1"
    by (rule decorates_shape)
  show ?thesis
    using assms(1) o1
    by (simp add: AnalyzeDecorations_def group_module_def d form_defs access_defs
          mk_inst_def index_defs always_true_def)
qed

theorem group_emptying_witness:
  "(2::spv_id) \<noteq> 1 \<and> decorates 1 kind_5_of_group_1 \<and>
   (\<exists>s. AnalyzeDecorations (group_module 1 [2] [kind_5_of_group_1]) = Inr s \<and>
     (\<exists>s'. RemoveDecorationsFrom s 2 always_true = Inr s' \<and>
       deref s' 2 = Inl InvalidAccess \<and> id_to_decoration_insts s' 2 = None \<and>
       annotations s' = [0, 1]))"
proof -
  have d: "decorates 1 kind_5_of_group_1"
    by (simp add: decorates_def kind_5_of_group_1_def mk_inst_def)
  have n: "(2::spv_id) \<noteq> 1" by simp
  show ?thesis
    using d n group_emptying [OF n d] by auto
qed

text \<open>
  With the group 1 applied to the id 2 only, removing every decoration from 2 leaves
  the \<^verbatim>\<open>OpDecorationGroup\<close> instruction of the group in the module.
\<close>

theorem group_emptying_counterexample:
  "\<exists>s s'. AnalyzeDecorations (group_module 1 [2] [kind_5_of_group_1]) = Inr s \<and>
     RemoveDecorationsFrom s 2 always_true = Inr s' \<and>
     deref s' 1 = Inr \<lparr>opcode = SpvOpDecorationGroup, result_id = 1, in_operands = []\<rparr> \<and>
     1 \<in> set (annotations s') \<and> GetDef s' 1 = Some 1"
  by (simp add: AnalyzeDecorations_def group_module_def kind_5_of_group_1_def edit_defs
        access_defs mk_inst_def index_defs always_true_def)

section \<open>Cloning decorations that come through a member group\<close>

text \<open>
  C3 at the module \<open>member_group_module\<close>: the index built by
  \<open>AnalyzeDecorations\<close> files the group-apply instruction under the literal 7
  (\<^verbatim>\<open>AddDecoration\<close> starts its loop at operand 2, where \<^verbatim>\<open>RemoveDecoration\<close> and
  \<^verbatim>\<open>CloneDecorations\<close> start at operand 1). Cloning the decorations of 7 onto 9 then
  changes the lookup of 7 from one decoration to two, and gives 9 none.
\<close>

theorem clone_member_group_divergence:
  "\<exists>s s'. AnalyzeDecorations member_group_module = Inr s \<and>
     GetDecorationsFor s 7 True = Inr [0] \<and>
     CloneDecorations s 7 9 = Inr s' \<and>
     GetDecorationsFor s' 7 True = Inr [0, 0] \<and>
     GetDecorationsFor s' 9 True = Inr []"
  by (simp add: AnalyzeDecorations_def member_group_module_def kind_5_of_group_1_def edit_defs
        access_defs mk_inst_def index_defs GetDecorationsFor_def
        process_direct_decorations_def SpvDecorationLinkageAttributes_def)

section \<open>Equivalence of decorations ignores targets\<close>

lemma decoration_payload_drop:
  "decoration_payload inst = concat (map words (drop 1 (in_operands inst)))"
proof -
  have "map (\<lambda>i. words (in_operands inst ! i)) [1..<length (in_operands inst)] =
      map words (drop 1 (in_operands inst))"
    by (rule nth_equalityI) auto
  then show ?thesis by (simp add: decoration_payload_def NumInOperands_def)
qed

lemma fillDecorationSets_Cons:
  "fillDecorationSets s (h # hs) sets =
     bind_e (deref s h) (\<lambda>inst.
       fillDecorationSets s hs
         (case opcode inst of
            SpvOpDecorate \<Rightarrow>
              sets\<lparr>decorate_set := insert (decoration_payload inst) (decorate_set sets)\<rparr>
          | SpvOpMemberDecorate \<Rightarrow>
              sets\<lparr>member_decorate_set :=
                   insert (decoration_payload inst) (member_decorate_set sets)\<rparr>
          | SpvOpDecorateId \<Rightarrow>
              sets\<lparr>decorate_id_set :=
                   insert (decoration_payload inst) (decorate_id_set sets)\<rparr>
          | SpvOpDecorateStringGOOGLE \<Rightarrow>
              sets\<lparr>decorate_string_set :=
                   insert (decoration_payload inst) (decorate_string_set sets)\<rparr>
          | _ \<Rightarrow> sets))"
  by (cases "deref s h") (simp_all add: fillDecorationSets_def)

lemma HaveTheSameDecorations_symmetric:
  assumes "HaveTheSameDecorations s x y = Inr b"
  shows "HaveTheSameDecorations s y x = Inr b"
proof -
  from assms obtain xs ys rx ry where
    "GetDecorationsFor s x False = Inr xs" "GetDecorationsFor s y False = Inr ys"
    "fillDecorationSets s xs empty_DecorationSets = Inr rx"
    "fillDecorationSets s ys empty_DecorationSets = Inr ry"
    and b: "b = (decorate_set rx = decorate_set ry \<and>
            decorate_id_set rx = decorate_id_set ry \<and>
            member_decorate_set rx = member_decorate_set ry \<and>
            decorate_string_set rx = decorate_string_set ry)"
    by (auto simp: HaveTheSameDecorations_def bind_e_eq_Inr)
  then show ?thesis
    by (auto simp: HaveTheSameDecorations_def)
qed

lemma lookup_derefable:
  assumes "GetDecorationsFor s i incl = Inr ds" and "h \<in> set ds"
  shows "\<exists>inst. deref s h = Inr inst"
proof -
  have ok: "lookup_ok s i" using assms(1) by (rule GetDecorationsFor_Inr_lookup_ok)
  from GetDecorationsFor_lookup_ok [OF ok, of incl] assms(1)
  have ds: "ds = decorationsFor_spec s i incl" by simp
  have "readable_decoration s h"
    using ok assms(2) unfolding ds
    by (auto simp: lookup_ok_def decorationsFor_spec_def list_all_iff
          split: option.splits)
  then show ?thesis
    by (cases "deref s h") (simp_all add: readable_decoration_def)
qed

lemma payloads_Cons:
  "deref s h = Inr inst \<Longrightarrow>
   payloads s opc (h # hs) =
     (if opcode inst = opc then {decoration_payload inst} else {}) \<union> payloads s opc hs"
  by (auto simp: payloads_def content_of_def decoration_payload_drop)

lemma fill_field:
  "fillDecorationSets s hs sets = Inr r \<Longrightarrow> is_direct_form opc \<Longrightarrow>
   field_of opc r = field_of opc sets \<union> payloads s opc hs"
proof (induction hs arbitrary: sets)
  case Nil
  then show ?case by (simp add: fillDecorationSets_def payloads_def)
next
  case (Cons h hs)
  from Cons.prems(1) obtain inst where d: "deref s h = Inr inst"
    by (cases "deref s h") (simp_all add: fillDecorationSets_Cons)
  show ?case
  proof (cases "opcode inst")
    case SpvOpDecorate
    with Cons.prems d have
      "fillDecorationSets s hs
         (sets\<lparr>decorate_set := insert (decoration_payload inst) (decorate_set sets)\<rparr>) = Inr r"
      by (simp add: fillDecorationSets_Cons)
    from Cons.IH [OF this Cons.prems(2)] show ?thesis
      using SpvOpDecorate Cons.prems(2) by (cases opc) (auto simp: payloads_Cons [OF d])
  next
    case SpvOpMemberDecorate
    with Cons.prems d have
      "fillDecorationSets s hs
         (sets\<lparr>member_decorate_set :=
            insert (decoration_payload inst) (member_decorate_set sets)\<rparr>) = Inr r"
      by (simp add: fillDecorationSets_Cons)
    from Cons.IH [OF this Cons.prems(2)] show ?thesis
      using SpvOpMemberDecorate Cons.prems(2) by (cases opc) (auto simp: payloads_Cons [OF d])
  next
    case SpvOpDecorateId
    with Cons.prems d have
      "fillDecorationSets s hs
         (sets\<lparr>decorate_id_set :=
            insert (decoration_payload inst) (decorate_id_set sets)\<rparr>) = Inr r"
      by (simp add: fillDecorationSets_Cons)
    from Cons.IH [OF this Cons.prems(2)] show ?thesis
      using SpvOpDecorateId Cons.prems(2) by (cases opc) (auto simp: payloads_Cons [OF d])
  next
    case SpvOpDecorateStringGOOGLE
    with Cons.prems d have
      "fillDecorationSets s hs
         (sets\<lparr>decorate_string_set :=
            insert (decoration_payload inst) (decorate_string_set sets)\<rparr>) = Inr r"
      by (simp add: fillDecorationSets_Cons)
    from Cons.IH [OF this Cons.prems(2)] show ?thesis
      using SpvOpDecorateStringGOOGLE Cons.prems(2)
      by (cases opc) (auto simp: payloads_Cons [OF d])
  next
    case SpvOpDecorationGroup
    with Cons.prems d have "fillDecorationSets s hs sets = Inr r"
      by (simp add: fillDecorationSets_Cons)
    from Cons.IH [OF this Cons.prems(2)] show ?thesis
      using SpvOpDecorationGroup Cons.prems(2)
      by (cases opc) (auto simp: payloads_Cons [OF d])
  next
    case SpvOpGroupDecorate
    with Cons.prems d have "fillDecorationSets s hs sets = Inr r"
      by (simp add: fillDecorationSets_Cons)
    from Cons.IH [OF this Cons.prems(2)] show ?thesis
      using SpvOpGroupDecorate Cons.prems(2)
      by (cases opc) (auto simp: payloads_Cons [OF d])
  next
    case SpvOpGroupMemberDecorate
    with Cons.prems d have "fillDecorationSets s hs sets = Inr r"
      by (simp add: fillDecorationSets_Cons)
    from Cons.IH [OF this Cons.prems(2)] show ?thesis
      using SpvOpGroupMemberDecorate Cons.prems(2)
      by (cases opc) (auto simp: payloads_Cons [OF d])
  next
    case SpvOpOther
    with Cons.prems d have "fillDecorationSets s hs sets = Inr r"
      by (simp add: fillDecorationSets_Cons)
    from Cons.IH [OF this Cons.prems(2)] show ?thesis
      using SpvOpOther Cons.prems(2)
      by (cases opc) (auto simp: payloads_Cons [OF d])
  qed
qed

lemma fill_total:
  "(\<And>h. h \<in> set hs \<Longrightarrow> \<exists>inst. deref s h = Inr inst) \<Longrightarrow>
   \<exists>r. fillDecorationSets s hs sets = Inr r"
proof (induction hs arbitrary: sets)
  case Nil
  then show ?case by (simp add: fillDecorationSets_def)
next
  case (Cons h hs)
  from Cons.prems [of h] obtain inst where d: "deref s h = Inr inst" by auto
  have "\<And>sets'. \<exists>r. fillDecorationSets s hs sets' = Inr r"
    using Cons.IH Cons.prems by simp
  then show ?case
    by (simp add: fillDecorationSets_Cons d)
qed

lemma HaveTheSameDecorations_same_contents:
  assumes x: "GetDecorationsFor s x False = Inr xs"
    and y: "GetDecorationsFor s y False = Inr ys"
    and c: "content_of s ` set xs = content_of s ` set ys"
  shows "HaveTheSameDecorations s x y = Inr True"
proof -
  from fill_total [of xs s empty_DecorationSets] lookup_derefable [OF x]
  obtain rx where rx: "fillDecorationSets s xs empty_DecorationSets = Inr rx" by blast
  from fill_total [of ys s empty_DecorationSets] lookup_derefable [OF y]
  obtain ry where ry: "fillDecorationSets s ys empty_DecorationSets = Inr ry" by blast
  have p: "payloads s opc xs = payloads s opc ys" for opc
    using c by (simp add: payloads_def)
  have "field_of opc rx = field_of opc ry" if "is_direct_form opc" for opc
    using fill_field [OF rx that] fill_field [OF ry that] p by simp
  from this [of SpvOpDecorate] this [of SpvOpMemberDecorate] this [of SpvOpDecorateId]
    this [of SpvOpDecorateStringGOOGLE]
  show ?thesis
    using x y rx ry by (simp add: HaveTheSameDecorations_def)
qed


lemma process_direct_decorations_view:
  assumes other: "\<And>h'. h' \<noteq> h \<Longrightarrow> deref s' h' = deref s h'"
    and d: "deref s h = Inr inst" and d': "deref s' h = Inr inst'"
    and opc: "opcode inst' = opcode inst"
    and kind: "opcode inst = SpvOpDecorate \<Longrightarrow>
                 GetSingleWordInOperand inst' 1 = GetSingleWordInOperand inst 1"
  shows "process_direct_decorations s' incl ds decs = process_direct_decorations s incl ds decs"
  unfolding process_direct_decorations_def
proof (rule fold_e_cong)
  fix x a
  show "bind_e (deref s' x) (\<lambda>inst.
           bind_e (if opcode inst = SpvOpDecorate
                   then bind_e (GetSingleWordInOperand inst 1)
                          (\<lambda>w. Inr (w = SpvDecorationLinkageAttributes))
                   else Inr False)
             (\<lambda>is_linkage. Inr (if incl \<or> \<not> is_linkage then a @ [x] else a))) =
        bind_e (deref s x) (\<lambda>inst.
           bind_e (if opcode inst = SpvOpDecorate
                   then bind_e (GetSingleWordInOperand inst 1)
                          (\<lambda>w. Inr (w = SpvDecorationLinkageAttributes))
                   else Inr False)
             (\<lambda>is_linkage. Inr (if incl \<or> \<not> is_linkage then a @ [x] else a)))"
  proof (cases "x = h")
    case False
    then show ?thesis by (simp add: other)
  next
    case True
    then show ?thesis using d d' opc kind by simp
  qed
qed

lemma GetDecorationsFor_view:
  assumes idx: "id_to_decoration_insts s' = id_to_decoration_insts s"
    and other: "\<And>h'. h' \<noteq> h \<Longrightarrow> deref s' h' = deref s h'"
    and d: "deref s h = Inr inst" and d': "deref s' h = Inr inst'"
    and opc: "opcode inst' = opcode inst"
    and kind: "opcode inst = SpvOpDecorate \<Longrightarrow>
                 GetSingleWordInOperand inst' 1 = GetSingleWordInOperand inst 1"
    and grp: "h \<in> set (indirect_decorations (target_data s i)) \<Longrightarrow>
                 GetSingleWordInOperand inst' 0 = GetSingleWordInOperand inst 0"
  shows "GetDecorationsFor s' i incl = GetDecorationsFor s i incl"
proof (cases "id_to_decoration_insts s i")
  case None
  then show ?thesis by (simp add: GetDecorationsFor_def idx)
next
  case (Some td)
  note pdd = process_direct_decorations_view [of h s' s inst inst', OF other d d' opc kind]
  have "fold_e (\<lambda>g decs.
            bind_e (deref s' g) (\<lambda>inst.
              bind_e (GetSingleWordInOperand inst 0) (\<lambda>group_id.
                case id_to_decoration_insts s group_id of
                  None \<Rightarrow> Inl AssertionFailure
                | Some group_data \<Rightarrow>
                    process_direct_decorations s incl (direct_decorations group_data) decs)))
          (indirect_decorations td) =
        fold_e (\<lambda>g decs.
            bind_e (deref s g) (\<lambda>inst.
              bind_e (GetSingleWordInOperand inst 0) (\<lambda>group_id.
                case id_to_decoration_insts s group_id of
                  None \<Rightarrow> Inl AssertionFailure
                | Some group_data \<Rightarrow>
                    process_direct_decorations s incl (direct_decorations group_data) decs)))
          (indirect_decorations td)"
  proof (rule ext, rule fold_e_cong)
    fix g a
    assume g: "g \<in> set (indirect_decorations td)"
    show "bind_e (deref s' g) (\<lambda>inst.
              bind_e (GetSingleWordInOperand inst 0) (\<lambda>group_id.
                case id_to_decoration_insts s group_id of
                  None \<Rightarrow> Inl AssertionFailure
                | Some group_data \<Rightarrow>
                    process_direct_decorations s incl (direct_decorations group_data) a)) =
          bind_e (deref s g) (\<lambda>inst.
              bind_e (GetSingleWordInOperand inst 0) (\<lambda>group_id.
                case id_to_decoration_insts s group_id of
                  None \<Rightarrow> Inl AssertionFailure
                | Some group_data \<Rightarrow>
                    process_direct_decorations s incl (direct_decorations group_data) a))"
    proof (cases "g = h")
      case False
      then show ?thesis by (simp add: other)
    next
      case True
      with g Some have "GetSingleWordInOperand inst' 0 = GetSingleWordInOperand inst 0"
        using grp by (simp add: target_data_def)
      then show ?thesis using True d d' by simp
    qed
  qed
  then show ?thesis
    using Some
    by (simp add: GetDecorationsFor_def idx pdd cong: option.case_cong)
qed

lemma fillDecorationSets_view:
  assumes other: "\<And>h'. h' \<noteq> h \<Longrightarrow> deref s' h' = deref s h'"
    and d: "deref s h = Inr inst" and d': "deref s' h = Inr inst'"
    and opc: "opcode inst' = opcode inst"
    and pay: "is_direct_form (opcode inst) \<Longrightarrow>
                 decoration_payload inst' = decoration_payload inst"
  shows "fillDecorationSets s' ds sets = fillDecorationSets s ds sets"
proof (induction ds arbitrary: sets)
  case Nil
  then show ?case by (simp add: fillDecorationSets_def)
next
  case (Cons x ds)
  show ?case
  proof (cases "x = h")
    case False
    then show ?thesis by (simp add: fillDecorationSets_Cons other Cons.IH)
  next
    case True
    show ?thesis
      using d d' opc pay
      by (cases "opcode inst") (simp_all add: True fillDecorationSets_Cons Cons.IH)
  qed
qed

lemma HaveTheSameDecorations_view:
  assumes idx: "id_to_decoration_insts s' = id_to_decoration_insts s"
    and other: "\<And>h'. h' \<noteq> h \<Longrightarrow> deref s' h' = deref s h'"
    and d: "deref s h = Inr inst" and d': "deref s' h = Inr inst'"
    and opc: "opcode inst' = opcode inst"
    and kind: "opcode inst = SpvOpDecorate \<Longrightarrow>
                 GetSingleWordInOperand inst' 1 = GetSingleWordInOperand inst 1"
    and pay: "is_direct_form (opcode inst) \<Longrightarrow>
                 decoration_payload inst' = decoration_payload inst"
    and grp: "h \<in> set (indirect_decorations (target_data s x)) \<or>
              h \<in> set (indirect_decorations (target_data s y)) \<Longrightarrow>
                 GetSingleWordInOperand inst' 0 = GetSingleWordInOperand inst 0"
  shows "HaveTheSameDecorations s' x y = HaveTheSameDecorations s x y"
proof -
  have gx: "GetDecorationsFor s' x False = GetDecorationsFor s x False"
    using idx other d d' opc kind grp by (rule GetDecorationsFor_view) simp_all
  have gy: "GetDecorationsFor s' y False = GetDecorationsFor s y False"
    using idx other d d' opc kind grp by (rule GetDecorationsFor_view) simp_all
  have f: "fillDecorationSets s' ds sets = fillDecorationSets s ds sets" for ds sets
    using other d d' opc pay by (rule fillDecorationSets_view)
  show ?thesis by (simp add: HaveTheSameDecorations_def gx gy f)
qed

lemma HaveTheSameDecorations_retarget_operand:
  assumes d: "deref s h = Inr inst" and k: "is_target_operand inst k"
    and inv: "is_group_apply (opcode inst) \<or>
              holds_group_applies s x \<and> holds_group_applies s y"
  shows "HaveTheSameDecorations (retarget_operand h k t s) x y = HaveTheSameDecorations s x y"
proof (cases "k < length (in_operands inst)")
  case False
  then show ?thesis
    using d by (simp add: retarget_operand_def SetInOperand_def NumInOperands_def)
next
  case True
  define inst' where
    "inst' = inst\<lparr>in_operands :=
        (in_operands inst)[k := Operand (optype (in_operands inst ! k)) [t]]\<rparr>"
  have s': "retarget_operand h k t s = store_inst h inst' s"
    using d True by (simp add: retarget_operand_def SetInOperand_def NumInOperands_def inst'_def)
  from d have live: "h < length (insts s)"
    by (simp add: deref_def split: if_splits)
  have idx: "id_to_decoration_insts (store_inst h inst' s) = id_to_decoration_insts s"
    by (simp add: store_inst_def)
  have other: "\<And>h'. h' \<noteq> h \<Longrightarrow> deref (store_inst h inst' s) h' = deref s h'"
    by (simp add: store_inst_def deref_def)
  have d': "deref (store_inst h inst' s) h = Inr inst'"
    using live by (simp add: store_inst_def deref_def)
  have opc: "opcode inst' = opcode inst" by (simp add: inst'_def)
  have len: "length (in_operands inst') = length (in_operands inst)" by (simp add: inst'_def)
  have nth: "j \<noteq> k \<Longrightarrow> in_operands inst' ! j = in_operands inst ! j" for j
    by (simp add: inst'_def)
  have word: "j \<noteq> k \<Longrightarrow> GetSingleWordInOperand inst' j = GetSingleWordInOperand inst j" for j
    using len nth [of j]
    by (simp add: GetSingleWordInOperand_def GetInOperand_def NumInOperands_def)
  have k0: "k = 0" if "is_direct_form (opcode inst)"
    using that k by (cases "opcode inst") (simp_all add: is_target_operand_def)
  have kpos: "0 < k" if "is_group_apply (opcode inst)"
    using that k by (cases "opcode inst") (auto simp: is_target_operand_def elim: oddE)
  have kind: "opcode inst = SpvOpDecorate \<Longrightarrow>
      GetSingleWordInOperand inst' 1 = GetSingleWordInOperand inst 1"
    using k0 word [of 1] by simp
  have pay: "is_direct_form (opcode inst) \<Longrightarrow>
      decoration_payload inst' = decoration_payload inst"
  proof -
    assume "is_direct_form (opcode inst)"
    then have "k = 0" by (rule k0)
    then have "drop 1 (in_operands inst') = drop 1 (in_operands inst)"
      by (cases "in_operands inst") (simp_all add: inst'_def)
    then show ?thesis by (simp add: decoration_payload_drop)
  qed
  have grp: "h \<in> set (indirect_decorations (target_data s x)) \<or>
        h \<in> set (indirect_decorations (target_data s y)) \<Longrightarrow>
      GetSingleWordInOperand inst' 0 = GetSingleWordInOperand inst 0"
  proof -
    assume mem: "h \<in> set (indirect_decorations (target_data s x)) \<or>
        h \<in> set (indirect_decorations (target_data s y))"
    have ga: "is_group_apply (opcode inst)"
    proof (rule ccontr)
      assume n: "\<not> is_group_apply (opcode inst)"
      with inv have hx: "holds_group_applies s x" and hy: "holds_group_applies s y" by simp_all
      from mem hx hy d have "is_group_apply (opcode inst)"
        by (auto simp: holds_group_applies_def list_all_iff)
      with n show False by simp
    qed
    from kpos [OF ga] word [of 0] show ?thesis by simp
  qed
  show ?thesis
    unfolding s'
    using idx other d d' opc kind pay grp by (rule HaveTheSameDecorations_view)
qed


lemma deref_push [simp]:
  "deref (push_direct t h a) g = deref a g"
  "deref (push_indirect t h a) g = deref a g"
  "deref (push_decorate_inst t h a) g = deref a g"
  by (simp_all add: deref_def index_defs)

lemma indirect_decorations_push:
  "indirect_decorations (target_data (push_direct t h a) i) =
     indirect_decorations (target_data a i)"
  "indirect_decorations (target_data (push_decorate_inst t h a) i) =
     indirect_decorations (target_data a i)"
  "indirect_decorations (target_data (push_indirect t h a) i) =
     (if i = t then indirect_decorations (target_data a t) @ [h]
      else indirect_decorations (target_data a i))"
  by (simp_all add: index_defs)

lemma holds_group_applies_push_direct:
  "holds_group_applies (push_direct t h a) i = holds_group_applies a i"
  by (simp add: holds_group_applies_def indirect_decorations_push)

lemma holds_group_applies_push_decorate_inst:
  "holds_group_applies (push_decorate_inst t h a) i = holds_group_applies a i"
  by (simp add: holds_group_applies_def indirect_decorations_push)

lemma holds_group_applies_push_indirect:
  "deref a h = Inr inst \<Longrightarrow> is_group_apply (opcode inst) \<Longrightarrow> holds_group_applies a i
     \<Longrightarrow> holds_group_applies (push_indirect t h a) i"
  by (auto simp: holds_group_applies_def indirect_decorations_push)

lemma holds_group_applies_AddDecoration:
  assumes add: "AddDecoration h a = Inr b" and inv: "\<And>i. holds_group_applies a i"
  shows "holds_group_applies b i"
proof -
  from add obtain inst where d: "deref a h = Inr inst"
    by (auto simp: AddDecoration_def bind_e_eq_Inr)
  have loop: "\<forall>i. holds_group_applies c i"
    if f: "fold_e (\<lambda>i s'. bind_e (GetSingleWordInOperand inst i)
                          (\<lambda>target_id. Inr (push_indirect target_id h s'))) ks a = Inr c"
      and g: "is_group_apply (opcode inst)"
    for ks c
  proof -
    have "insts c = insts a \<and> (\<forall>i. holds_group_applies c i)"
      using f
    proof (rule fold_e_invariant)
      show "insts a = insts a \<and> (\<forall>i. holds_group_applies a i)" using inv by simp
    next
      fix x u v
      assume u: "insts u = insts a \<and> (\<forall>i. holds_group_applies u i)"
        and v: "bind_e (GetSingleWordInOperand inst x)
                  (\<lambda>target_id. Inr (push_indirect target_id h u)) = Inr v"
      from v obtain w where v': "v = push_indirect w h u"
        by (auto simp: bind_e_eq_Inr)
      from u have "deref u h = deref a h" by (simp add: deref_def)
      with d have du: "deref u h = Inr inst" by simp
      show "insts v = insts a \<and> (\<forall>i. holds_group_applies v i)"
        using u holds_group_applies_push_indirect [OF du g]
        by (simp add: v' index_defs)
    qed
    then show ?thesis by simp
  qed
  show ?thesis
  proof (cases "is_direct_form (opcode inst)")
    case True
    then show ?thesis
      using add d inv
      by (auto simp: AddDecoration_by_form bind_e_eq_Inr holds_group_applies_push_direct)
  next
    case False
    show ?thesis
    proof (cases "is_group_apply (opcode inst)")
      case True
      then show ?thesis
        using add d False
        by (auto simp: AddDecoration_by_form bind_e_eq_Inr
              holds_group_applies_push_decorate_inst dest!: loop)
    next
      case n: False
      then show ?thesis
        using add d False inv by (simp add: AddDecoration_by_form)
    qed
  qed
qed

lemma holds_group_applies_AnalyzeDecorations:
  assumes "AnalyzeDecorations m = Inr s" and "id_to_decoration_insts m = Map.empty"
  shows "holds_group_applies s i"
proof -
  have base: "\<forall>i. holds_group_applies m i"
    using assms(2) by (simp add: holds_group_applies_def target_data_def empty_TargetData_def)
  show ?thesis
  proof (cases "has_module m")
    case False
    with assms(1) base show ?thesis by (simp add: AnalyzeDecorations_def)
  next
    case True
    with assms(1) have f: "fold_e AddDecoration (annotations m) m = Inr s"
      by (simp add: AnalyzeDecorations_def)
    have "\<forall>i. holds_group_applies s i"
      using f base
      by (rule fold_e_invariant) (auto intro: holds_group_applies_AddDecoration)
    then show ?thesis by simp
  qed
qed

text \<open>
  C8, as the code has it: two ids whose lookups hold the same set of contents (opcode
  and operands after the target), in any order and with any multiplicity, compare as
  the same; the comparison is symmetric; and rewriting in place a target operand of
  one decoration instruction, the index being left as it is, does not change the
  result, provided, when the instruction is of a direct form, that the indirect lists
  of the two ids hold only group-apply instructions. That holds of every id in an
  index built by \<open>AnalyzeDecorations\<close> from an empty one.
\<close>

theorem HaveTheSameDecorations_target_independent:
  "(GetDecorationsFor s x False = Inr xs \<and> GetDecorationsFor s y False = Inr ys \<and>
    content_of s ` set xs = content_of s ` set ys
      \<longrightarrow> HaveTheSameDecorations s x y = Inr True) \<and>
   (HaveTheSameDecorations s x y = Inr b \<longrightarrow> HaveTheSameDecorations s y x = Inr b) \<and>
   (deref s h = Inr inst \<and> is_target_operand inst k \<and>
    (is_group_apply (opcode inst) \<or> holds_group_applies s x \<and> holds_group_applies s y)
      \<longrightarrow> HaveTheSameDecorations (retarget_operand h k t s) x y =
            HaveTheSameDecorations s x y) \<and>
   (AnalyzeDecorations m = Inr s' \<and> id_to_decoration_insts m = Map.empty
      \<longrightarrow> holds_group_applies s' j)"
  using HaveTheSameDecorations_same_contents [of s x xs y ys]
    HaveTheSameDecorations_symmetric [of s x y b]
    HaveTheSameDecorations_retarget_operand [of s h inst k x y t]
    holds_group_applies_AnalyzeDecorations [of m s' j]
  by blast

text \<open>
  When the index follows the change, the result changes: in the module of
  \<open>crossed_state\<close> the ids 10 and 11 compare as the same; with the target of
  instruction 0 changed from 10 to 12 and the index built from the changed module, or
  the instruction un-indexed before the change and indexed again after it, they do
  not. With the index left as it is, the result changes when a direct decoration
  stands in an indirect list, where its target operand is read as a group id: in
  \<open>misfiled_state\<close> the ids 20 and 1 compare as the same, and no longer do once the
  target of instruction 0 is changed from 1 to 7.
\<close>

theorem target_change_counterexample:
  "AnalyzeDecorations crossed_module = Inr crossed_state \<and>
   HaveTheSameDecorations crossed_state 10 11 = Inr True \<and>
   (\<exists>inst. deref crossed_module 0 = Inr inst \<and> is_target_operand inst 0) \<and>
   (\<exists>s'. AnalyzeDecorations (retarget_operand 0 0 12 crossed_module) = Inr s' \<and>
         HaveTheSameDecorations s' 10 11 = Inr False) \<and>
   (\<exists>s1 s2. RemoveDecoration 0 crossed_state = Inr s1 \<and>
         AddDecoration 0 (retarget_operand 0 0 12 s1) = Inr s2 \<and>
         HaveTheSameDecorations s2 10 11 = Inr False) \<and>
   \<not> holds_group_applies misfiled_state 20 \<and>
   (\<exists>inst. deref misfiled_state 0 = Inr inst \<and> is_target_operand inst 0) \<and>
   HaveTheSameDecorations misfiled_state 20 1 = Inr True \<and>
   HaveTheSameDecorations (retarget_operand 0 0 7 misfiled_state) 20 1 = Inr False"
  by (simp add: AnalyzeDecorations_def AddDecoration_def RemoveDecoration_def
        HaveTheSameDecorations_def GetDecorationsFor_def process_direct_decorations_def
        fillDecorationSets_def decoration_payload_def empty_DecorationSets_def
        retarget_operand_def is_target_operand_def SetInOperand_def store_inst_def
        crossed_state_def crossed_module_def misfiled_state_def holds_group_applies_def
        mk_inst_def access_defs index_defs
        SpvDecorationLinkageAttributes_def fun_eq_iff upt_rec insert_commute)

theorem HaveTheSameDecorations_target_independent_witness:
  "GetDecorationsFor crossed_state 10 False = Inr [0, 1] \<and>
   GetDecorationsFor crossed_state 11 False = Inr [2, 3] \<and>
   content_of crossed_state ` set [0, 1] = content_of crossed_state ` set [2, 3] \<and>
   HaveTheSameDecorations crossed_state 10 11 = Inr True \<and>
   HaveTheSameDecorations crossed_state 11 10 = Inr True \<and>
   is_target_operand (mk_inst SpvOpDecorate
      [Operand SPV_OPERAND_TYPE_ID [10], Operand SPV_OPERAND_TYPE_DECORATION [5]]) 0 \<and>
   holds_group_applies crossed_state 10 \<and> holds_group_applies crossed_state 11 \<and>
   HaveTheSameDecorations (retarget_operand 0 0 12 crossed_state) 10 11 = Inr True \<and>
   is_target_operand (mk_inst SpvOpGroupDecorate
      [Operand SPV_OPERAND_TYPE_ID [1], Operand SPV_OPERAND_TYPE_ID [2],
       Operand SPV_OPERAND_TYPE_ID [3]]) 1 \<and>
   HaveTheSameDecorations example_state 2 3 = Inr True \<and>
   HaveTheSameDecorations (retarget_operand 3 1 9 example_state) 2 3 = Inr True \<and>
   AnalyzeDecorations example_module = Inr example_state \<and>
   holds_group_applies example_state 2"
proof -
  let ?d = "mk_inst SpvOpDecorate
      [Operand SPV_OPERAND_TYPE_ID [10], Operand SPV_OPERAND_TYPE_DECORATION [5]]"
  let ?g = "mk_inst SpvOpGroupDecorate
      [Operand SPV_OPERAND_TYPE_ID [1], Operand SPV_OPERAND_TYPE_ID [2],
       Operand SPV_OPERAND_TYPE_ID [3]]"
  have x: "GetDecorationsFor crossed_state 10 False = Inr [0, 1]"
    by (simp add: GetDecorationsFor_def process_direct_decorations_def crossed_state_def
          crossed_module_def mk_inst_def access_defs SpvDecorationLinkageAttributes_def)
  have y: "GetDecorationsFor crossed_state 11 False = Inr [2, 3]"
    by (simp add: GetDecorationsFor_def process_direct_decorations_def crossed_state_def
          crossed_module_def mk_inst_def access_defs SpvDecorationLinkageAttributes_def)
  have c: "content_of crossed_state ` set [0, 1] = content_of crossed_state ` set [2, 3]"
    by (auto simp: content_of_def crossed_state_def crossed_module_def mk_inst_def
          access_defs)
  have d: "deref crossed_state 0 = Inr ?d"
    by (simp add: crossed_state_def crossed_module_def access_defs)
  have k: "is_target_operand ?d 0"
    by (simp add: is_target_operand_def mk_inst_def)
  have g: "holds_group_applies crossed_state 10" "holds_group_applies crossed_state 11"
    by (simp_all add: holds_group_applies_def target_data_def crossed_state_def
          crossed_module_def)
  have dg: "deref example_state 3 = Inr ?g"
    by (simp add: example_defs access_defs)
  have kg: "is_target_operand ?g 1" "is_group_apply (opcode ?g)"
    by (simp_all add: is_target_operand_def mk_inst_def)
  have same: "HaveTheSameDecorations example_state 2 3 = Inr True"
    by (simp add: HaveTheSameDecorations_def GetDecorationsFor_def
          process_direct_decorations_def fillDecorationSets_def decoration_payload_def
          empty_DecorationSets_def example_defs access_defs
          SpvDecorationLinkageAttributes_def upt_rec)
  have m: "AnalyzeDecorations example_module = Inr example_state"
    by (simp add: AnalyzeDecorations_def AddDecoration_def example_defs access_defs
          index_defs loop_indices.simps fun_eq_iff)
  have e: "id_to_decoration_insts example_module = Map.empty"
    by (simp add: example_defs)
  have one: "HaveTheSameDecorations crossed_state 10 11 = Inr True"
    using x y c HaveTheSameDecorations_target_independent
      [where s = crossed_state and x = 10 and xs = "[0, 1]" and y = 11 and ys = "[2, 3]",
        THEN conjunct1]
    by simp
  have two: "HaveTheSameDecorations crossed_state 11 10 = Inr True"
    using one HaveTheSameDecorations_target_independent
      [where s = crossed_state and x = 10 and y = 11 and b = True,
        THEN conjunct2, THEN conjunct1]
    by simp
  have three: "HaveTheSameDecorations (retarget_operand 0 0 12 crossed_state) 10 11 = Inr True"
    using d k g one HaveTheSameDecorations_target_independent
      [where s = crossed_state and x = 10 and y = 11 and h = 0 and inst = ?d and k = 0
         and t = 12, THEN conjunct2, THEN conjunct2, THEN conjunct1]
    by simp
  have four: "HaveTheSameDecorations (retarget_operand 3 1 9 example_state) 2 3 = Inr True"
    using dg kg same HaveTheSameDecorations_target_independent
      [where s = example_state and x = 2 and y = 3 and h = 3 and inst = ?g and k = 1
         and t = 9, THEN conjunct2, THEN conjunct2, THEN conjunct1]
    by simp
  have five: "holds_group_applies example_state 2"
    using m e HaveTheSameDecorations_target_independent
      [where s' = example_state and m = example_module and j = 2,
        THEN conjunct2, THEN conjunct2, THEN conjunct2]
    by simp
  show ?thesis
    using x y c k g kg(1) same m one two three four five by simp
qed

end
